theory Spec2Isabelle
  imports Main "HOL-Library.Sublist" "HOL-Library.Signed_Division" "HOL-Library.Log_Nat"
begin

section \<open>Python values and the exceptions of the client\<close>

text \<open>
  The client (\<^verbatim>\<open>src/utils/blum.py\<close>, class \<^verbatim>\<open>BlumBot\<close>) talks to one remote service
  over HTTP and inspects the decoded JSON bodies with Python's dynamic operations.
  A decoded body is a value of \<open>json\<close>; \<open>JNull\<close> is Python's \<^verbatim>\<open>None\<close>, \<open>JObj\<close> a
  \<^verbatim>\<open>dict\<close> (an association list read with \<open>map_of\<close>), \<open>JArr\<close> a \<^verbatim>\<open>list\<close>.
  JSON numbers with a fraction or an exponent (Python floats) are outside the model.
\<close>

datatype json =
    JNull
  | JBool bool
  | JInt int
  | JStr string
  | JArr "json list"
  | JObj "(string \<times> json) list"

text \<open>
  Every \<^verbatim>\<open>raise\<close> of the source and of the operations it calls is a value of \<open>error\<close>:
  the two business errors declared in the file, the failures of the transport
  (\<^verbatim>\<open>session.get\<close>/\<^verbatim>\<open>session.post\<close>), of reading a body (\<^verbatim>\<open>resp.text()\<close>), of decoding
  it (\<^verbatim>\<open>resp.json()\<close>), of the identity provider (\<^verbatim>\<open>account.get_tg_web_data\<close>), and
  Python's own \<^verbatim>\<open>AttributeError\<close>, \<^verbatim>\<open>TypeError\<close>, \<^verbatim>\<open>KeyError\<close> and \<^verbatim>\<open>OverflowError\<close>.
\<close>

datatype error =
    RefCodeError
  | AccountUsedError
  | TransportError
  | PayloadError
  | DecodeError
  | IdentityError
  | AttributeError
  | TypeError
  | KeyError
  | OverflowError

text \<open>\<^verbatim>\<open>d.get(key)\<close>: defined on a dict only, \<^verbatim>\<open>None\<close> for a missing key.\<close>

fun py_get :: "json \<Rightarrow> string \<Rightarrow> error + json" where
  "py_get (JObj kvs) k = Inr (case map_of kvs k of None \<Rightarrow> JNull | Some v \<Rightarrow> v)"
| "py_get _ k = Inl AttributeError"

text \<open>\<^verbatim>\<open>d[key]\<close> with a string key.\<close>

fun py_subscript :: "json \<Rightarrow> string \<Rightarrow> error + json" where
  "py_subscript (JObj kvs) k = (case map_of kvs k of None \<Rightarrow> Inl KeyError | Some v \<Rightarrow> Inr v)"
| "py_subscript _ k = Inl TypeError"

text \<open>Truthiness, as tested by \<^verbatim>\<open>if x\<close>, \<^verbatim>\<open>not x\<close> and \<^verbatim>\<open>while x\<close>.\<close>

fun py_truthy :: "json \<Rightarrow> bool" where
  "py_truthy JNull = False"
| "py_truthy (JBool b) = b"
| "py_truthy (JInt i) = (i \<noteq> 0)"
| "py_truthy (JStr s) = (s \<noteq> [])"
| "py_truthy (JArr xs) = (xs \<noteq> [])"
| "py_truthy (JObj kvs) = (kvs \<noteq> [])"

text \<open>
  \<^verbatim>\<open>key in x\<close> for a string key: key membership on a dict, element membership on a
  list, substring on a string, \<^verbatim>\<open>TypeError\<close> on \<^verbatim>\<open>None\<close>, booleans and numbers.
\<close>

fun py_in :: "string \<Rightarrow> json \<Rightarrow> error + bool" where
  "py_in k (JObj kvs) = Inr (map_of kvs k \<noteq> None)"
| "py_in k (JArr xs) = Inr (JStr k \<in> set xs)"
| "py_in k (JStr s) = Inr (sublist k s)"
| "py_in k _ = Inl TypeError"

text \<open>\<^verbatim>\<open>"literal" + x\<close>: string concatenation, \<^verbatim>\<open>TypeError\<close> unless \<open>x\<close> is a string.\<close>

fun py_str_add :: "string \<Rightarrow> json \<Rightarrow> error + string" where
  "py_str_add s (JStr t) = Inr (s @ t)"
| "py_str_add s _ = Inl TypeError"

text \<open>
  \<^verbatim>\<open>int(x / 1000)\<close> on an integer \<open>x\<close>. The quotient \<^verbatim>\<open>x / 1000\<close> is the double nearest to
  the exact quotient, ties going to the even mantissa; when that double would be
  \<open>2 ^ 1024\<close> or more, the division raises \<^verbatim>\<open>OverflowError\<close>; \<^verbatim>\<open>int\<close> then truncates
  towards zero. Sign and magnitude are handled apart, so the result for \<open>- x\<close> is the
  negated result for \<open>x\<close>.

  For a positive \<open>a\<close>, \<open>double_shift a\<close> is the \<open>s\<close> for which \<open>a * 2 ^ s / 1000\<close> lies
  between \<open>2 ^ 52\<close> and \<open>2 ^ 53\<close> (\<open>scaled\<close> writes that fraction with integers, also for
  a negative \<open>s\<close>); the 53-bit mantissa is the fraction rounded half to even, and the
  double is the mantissa times \<open>2 ^ (- s)\<close>.
\<close>

definition round_half_even :: "int \<Rightarrow> int \<Rightarrow> int" where
  "round_half_even n d =
     (let q = n div d; r = n mod d
      in if 2 * r < d then q else if d < 2 * r then q + 1 else if even q then q else q + 1)"

definition scaled :: "int \<Rightarrow> int \<Rightarrow> int \<times> int" where
  "scaled a s = (if 0 \<le> s then (a * 2 ^ nat s, 1000) else (a, 1000 * 2 ^ nat (- s)))"

definition double_shift :: "int \<Rightarrow> int" where
  "double_shift a =
     (let s0 = 62 - bitlen a; (n, d) = scaled a s0
      in if 2 ^ 52 * d \<le> n then s0 else s0 + 1)"

definition int_of_quotient_1000 :: "int \<Rightarrow> error + int" where
  "int_of_quotient_1000 a =
     (let s = double_shift a; (n, d) = scaled a s; m = round_half_even n d
      in if 0 \<le> s then Inr (m div 2 ^ nat s)
         else if 2 ^ 1024 \<le> m * 2 ^ nat (- s) then Inl OverflowError
         else Inr (m * 2 ^ nat (- s)))"

definition py_int_true_div_1000 :: "int \<Rightarrow> error + int" where
  "py_int_true_div_1000 x =
     (if x = 0 then Inr 0
      else case int_of_quotient_1000 \<bar>x\<bar> of Inl e \<Rightarrow> Inl e | Inr v \<Rightarrow> Inr (sgn x * v))"

text \<open>
  \<^verbatim>\<open>int(x / 1000)\<close> on a decoded value: a boolean divides as 0 or 1 and gives 0, \<^verbatim>\<open>None\<close>
  and the other types raise \<^verbatim>\<open>TypeError\<close>.
\<close>

fun py_int_div_1000 :: "json \<Rightarrow> error + json" where
  "py_int_div_1000 (JInt x) =
     (case py_int_true_div_1000 x of Inl e \<Rightarrow> Inl e | Inr v \<Rightarrow> Inr (JInt v))"
| "py_int_div_1000 (JBool b) = Inr (JInt 0)"
| "py_int_div_1000 _ = Inl TypeError"

section \<open>The transport, the session and the world around the client\<close>

datatype meth = GET | POST

datatype endpoint =
    Tasks
  | GamePlay
  | GameClaim
  | FarmingClaim
  | FarmingStart
  | FriendsBalance
  | UserBalance
  | AuthRefresh
  | AuthProvider

fun url_of :: "endpoint \<Rightarrow> string" where
  "url_of Tasks = ''https://game-domain.blum.codes/api/v1/tasks''"
| "url_of GamePlay = ''https://game-domain.blum.codes/api/v1/game/play''"
| "url_of GameClaim = ''https://game-domain.blum.codes/api/v1/game/claim''"
| "url_of FarmingClaim = ''https://game-domain.blum.codes/api/v1/farming/claim''"
| "url_of FarmingStart = ''https://game-domain.blum.codes/api/v1/farming/start''"
| "url_of FriendsBalance = ''https://gateway.blum.codes/v1/friends/balance''"
| "url_of UserBalance = ''https://game-domain.blum.codes/api/v1/user/balance''"
| "url_of AuthRefresh = ''https://gateway.blum.codes/v1/auth/refresh''"
| "url_of AuthProvider = ''https://gateway.blum.codes/v1/auth/provider/PROVIDER_TELEGRAM_MINI_APP''"

text \<open>
  A request as the service sees it: method, endpoint, the \<^verbatim>\<open>json=\<close> body when one is
  sent, and the \<^verbatim>\<open>Authorization\<close> default header of the session at that moment.
\<close>

record request =
  meth :: meth
  endpoint :: endpoint
  body :: "json option"
  authorization :: "string option"

text \<open>
  A response: \<^verbatim>\<open>resp.status\<close>, the result of \<^verbatim>\<open>await resp.text()\<close> and the result of
  \<^verbatim>\<open>await resp.json()\<close>; \<open>None\<close> is the call raising.
\<close>

record response =
  status :: int
  text_body :: "string option"
  json_body :: "json option"

datatype delay = DelayPlay | DelayGame | DelayErrorPlay | DelaySeconds nat

datatype log_msg =
    CouldntStart int
  | FinishPlay int
  | CouldntPlay json int
  | PlayError error
  | TasksResponse json
  | TasksUnexpected json

text \<open>
  What the client does to the world, in order: the requests it sends, the sleeps
  (\<open>DelayPlay\<close> and \<open>DelayErrorPlay\<close> are the configured random ranges
  \<^verbatim>\<open>config.DELAYS['PLAY']\<close> and \<^verbatim>\<open>config.DELAYS['ERROR_PLAY']\<close>, \<open>DelayGame\<close> is
  \<^verbatim>\<open>random.uniform(30, 40)\<close>), and the lines it logs.
\<close>

datatype event = Request request | Sleep delay | Log log_msg

text \<open>
  The collaborators the source leaves outside: the remote service answers a request
  (or the transport raises) depending on everything that happened before; the
  identity provider \<^verbatim>\<open>account.get_tg_web_data\<close> returns the signed payload or raises;
  \<^verbatim>\<open>random.randint(*config.POINTS)\<close> draws the reward. \<^verbatim>\<open>data.config\<close> is not part of
  the source file, so the draw is a parameter.
\<close>

record env =
  service :: "event list \<Rightarrow> request \<Rightarrow> error + response"
  get_tg_web_data :: "event list \<Rightarrow> string option \<Rightarrow> error + string"
  rand_points :: "event list \<Rightarrow> int"

text \<open>
  The state of one \<^verbatim>\<open>BlumBot\<close>: \<^verbatim>\<open>session.headers\<close>, \<^verbatim>\<open>self.refresh_token\<close>, and the
  history of events so far.
\<close>

record bot =
  headers :: "string \<rightharpoonup> string"
  refresh_token :: json
  trace :: "event list"

definition init_bot :: bot where
  "init_bot = \<lparr>headers = Map.empty, refresh_token = JStr [], trace = []\<rparr>"

text \<open>
  A coroutine of the source is a function from the state to a result or an exception,
  and the state it leaves; an exception keeps the effects made before it.
\<close>

type_synonym 'a io = "bot \<Rightarrow> (error + 'a) \<times> bot"

definition ret :: "'a \<Rightarrow> 'a io" where
  "ret x st = (Inr x, st)"

definition lift :: "error + 'a \<Rightarrow> 'a io" where
  "lift r st = (r, st)"

definition and_then :: "'a io \<Rightarrow> ('a \<Rightarrow> 'b io) \<Rightarrow> 'b io" where
  "and_then m f st = (case m st of (Inl e, st') \<Rightarrow> (Inl e, st') | (Inr x, st') \<Rightarrow> f x st')"

definition emit :: "event \<Rightarrow> unit io" where
  "emit ev st = (Inr (), st\<lparr>trace := trace st @ [ev]\<rparr>)"

definition sleep :: "delay \<Rightarrow> unit io" where
  "sleep d = emit (Sleep d)"

definition log :: "log_msg \<Rightarrow> unit io" where
  "log m = emit (Log m)"

text \<open>
  \<^verbatim>\<open>session.get\<close> and \<^verbatim>\<open>session.post\<close>: the request carries the session's default
  \<^verbatim>\<open>Authorization\<close> header, the service answers from the history before the request,
  and the request joins the history whether or not the transport raised.
\<close>

definition mk_request :: "bot \<Rightarrow> meth \<Rightarrow> endpoint \<Rightarrow> json option \<Rightarrow> request" where
  "mk_request st m ep b =
     \<lparr>meth = m, endpoint = ep, body = b, authorization = headers st ''Authorization''\<rparr>"

definition send :: "env \<Rightarrow> meth \<Rightarrow> endpoint \<Rightarrow> json option \<Rightarrow> response io" where
  "send env m ep b st =
     (let rq = mk_request st m ep b
      in (service env (trace st) rq, st\<lparr>trace := trace st @ [Request rq]\<rparr>))"

definition resp_json :: "response \<Rightarrow> json io" where
  "resp_json resp = lift (case json_body resp of None \<Rightarrow> Inl DecodeError | Some j \<Rightarrow> Inr j)"

definition resp_text :: "response \<Rightarrow> string io" where
  "resp_text resp = lift (case text_body resp of None \<Rightarrow> Inl PayloadError | Some t \<Rightarrow> Inr t)"

definition set_authorization :: "string \<Rightarrow> unit io" where
  "set_authorization h st = (Inr (), st\<lparr>headers := (headers st)(''Authorization'' \<mapsto> h)\<rparr>)"

definition set_refresh_token :: "json \<Rightarrow> unit io" where
  "set_refresh_token r st = (Inr (), st\<lparr>refresh_token := r\<rparr>)"

section \<open>The operations of BlumBot\<close>

definition get_tasks :: "env \<Rightarrow> json list io" where
  "get_tasks env =
     and_then (send env GET Tasks None) (\<lambda>resp.
     and_then (resp_json resp) (\<lambda>rj.
     and_then (log (TasksResponse rj)) (\<lambda>_.
       case rj of
         JArr tasks \<Rightarrow> ret tasks
       | _ \<Rightarrow> and_then (log (TasksUnexpected rj)) (\<lambda>_. ret []))))"

definition refresh :: "env \<Rightarrow> unit io" where
  "refresh env =
     and_then (\<lambda>st. (Inr (JObj [(''refresh'', refresh_token st)]), st)) (\<lambda>json_data.
     and_then (send env POST AuthRefresh (Some json_data)) (\<lambda>resp.
     and_then (resp_json resp) (\<lambda>rj.
     and_then (lift (py_get rj ''access'')) (\<lambda>access.
     and_then (lift (py_str_add ''Bearer '' access)) (\<lambda>h.
     and_then (set_authorization h) (\<lambda>_.
     and_then (lift (py_get rj ''refresh'')) (\<lambda>r.
       set_refresh_token r)))))))"

definition start_game :: "env \<Rightarrow> json io" where
  "start_game env =
     and_then (send env POST GamePlay None) (\<lambda>resp.
     and_then (resp_json resp) (\<lambda>response_data.
     and_then (lift (py_in ''gameId'' response_data)) (\<lambda>has_id.
       if has_id then lift (py_get response_data ''gameId'')
       else
         and_then (lift (py_in ''message'' response_data)) (\<lambda>has_msg.
           if has_msg then lift (py_get response_data ''message'')
           else ret JNull))))"

text \<open>
  The status test shared by the write operations: a status other than 200 sleeps one
  second and sends the same request once more; the second response replaces the first.
\<close>

definition claim_game :: "env \<Rightarrow> json \<Rightarrow> (json \<times> int) io" where
  "claim_game env game_id =
     and_then (\<lambda>st. (Inr (rand_points env (trace st)), st)) (\<lambda>points.
     let json_data = JObj [(''gameId'', game_id), (''points'', JInt points)] in
     and_then (send env POST GameClaim (Some json_data)) (\<lambda>resp.
     and_then (if status resp \<noteq> 200
               then and_then (sleep (DelaySeconds 1)) (\<lambda>_. send env POST GameClaim (Some json_data))
               else ret resp) (\<lambda>resp.
     and_then (resp_text resp) (\<lambda>txt.
       ret (if txt = ''OK'' then JBool True else JStr txt, points)))))"

definition claim :: "env \<Rightarrow> (json \<times> json) io" where
  "claim env =
     and_then (send env POST FarmingClaim None) (\<lambda>resp.
     and_then (if status resp \<noteq> 200
               then and_then (sleep (DelaySeconds 1)) (\<lambda>_. send env POST FarmingClaim None)
               else ret resp) (\<lambda>resp.
     and_then (resp_json resp) (\<lambda>rj.
     and_then (lift (py_get rj ''timestamp'')) (\<lambda>ts.
     and_then (lift (py_int_div_1000 ts)) (\<lambda>secs.
     and_then (lift (py_get rj ''availableBalance'')) (\<lambda>available.
       ret (secs, available)))))))"

definition start :: "env \<Rightarrow> unit io" where
  "start env =
     and_then (send env POST FarmingStart None) (\<lambda>resp.
       if status resp \<noteq> 200
       then and_then (sleep (DelaySeconds 1)) (\<lambda>_.
            and_then (send env POST FarmingStart None) (\<lambda>_. ret ()))
       else ret ())"

definition friend_balance :: "env \<Rightarrow> (json \<times> json) io" where
  "friend_balance env =
     and_then (send env GET FriendsBalance None) (\<lambda>resp.
     and_then (resp_json resp) (\<lambda>rj.
     and_then (sleep (DelaySeconds 1)) (\<lambda>_.
     and_then (lift (py_get rj ''amountForClaim'')) (\<lambda>claim_amount.
     and_then (lift (py_get rj ''canClaim'')) (\<lambda>is_available.
       if status resp \<noteq> 200
       then
         and_then (send env GET FriendsBalance None) (\<lambda>resp.
         and_then (resp_json resp) (\<lambda>rj.
         and_then (lift (py_get rj ''amountForClaim'')) (\<lambda>claim_amount.
         and_then (lift (py_get rj ''canClaim'')) (\<lambda>is_available.
           ret (claim_amount, is_available)))))
       else ret (claim_amount, is_available))))))"

text \<open>\<^verbatim>\<open>int(x / 1000) if x is not None else None\<close>\<close>

definition secs_or_none :: "json \<Rightarrow> error + json" where
  "secs_or_none x = (if x \<noteq> JNull then py_int_div_1000 x else Inr JNull)"

definition balance :: "env \<Rightarrow> (json \<times> json \<times> json \<times> json) io" where
  "balance env =
     and_then (send env GET UserBalance None) (\<lambda>resp.
     and_then (resp_json resp) (\<lambda>rj.
     and_then (sleep (DelaySeconds 1)) (\<lambda>_.
     and_then (lift (py_get rj ''timestamp'')) (\<lambda>timestamp.
     and_then (lift (py_get rj ''playPasses'')) (\<lambda>play_passes.
     and_then (lift (py_get rj ''farming'')) (\<lambda>farming.
     and_then (if py_truthy farming
               then
                 and_then (lift (py_subscript rj ''farming'')) (\<lambda>f1.
                 and_then (lift (py_get f1 ''startTime'')) (\<lambda>start_time.
                 and_then (lift (py_subscript rj ''farming'')) (\<lambda>f2.
                 and_then (lift (py_get f2 ''endTime'')) (\<lambda>end_time.
                   ret (start_time, end_time)))))
               else ret (JNull, JNull)) (\<lambda>(start_time, end_time).
     and_then (lift (secs_or_none timestamp)) (\<lambda>now.
     and_then (lift (secs_or_none start_time)) (\<lambda>window_start.
     and_then (lift (secs_or_none end_time)) (\<lambda>window_end.
       ret (now, window_start, window_end, play_passes)))))))))))"

text \<open>The body of the \<^verbatim>\<open>try\<close> in \<^verbatim>\<open>login\<close>, and \<^verbatim>\<open>login\<close> with its bare \<^verbatim>\<open>except\<close>.\<close>

definition login_try :: "env \<Rightarrow> bool io" where
  "login_try env =
     and_then (\<lambda>st. (get_tg_web_data env (trace st) None, st)) (\<lambda>query.
     and_then (send env POST AuthProvider (Some (JObj [(''query'', JStr query)]))) (\<lambda>resp.
     and_then (resp_json resp) (\<lambda>rj.
     and_then (lift (py_get rj ''token'')) (\<lambda>token.
     and_then (lift (py_get token ''access'')) (\<lambda>access.
     and_then (lift (py_str_add ''Bearer '' access)) (\<lambda>h.
     and_then (set_authorization h) (\<lambda>_.
     and_then (lift (py_get rj ''token'')) (\<lambda>token.
     and_then (lift (py_get token ''refresh'')) (\<lambda>r.
     and_then (set_refresh_token r) (\<lambda>_.
       ret True))))))))))"

definition login :: "env \<Rightarrow> bot \<Rightarrow> bool \<times> bot" where
  "login env st = (case login_try env st of (Inl e, st') \<Rightarrow> (False, st') | (Inr ok, st') \<Rightarrow> (ok, st'))"

definition register :: "env \<Rightarrow> string \<Rightarrow> string \<Rightarrow> bool io" where
  "register env referral_code username =
     and_then (\<lambda>st. (get_tg_web_data env (trace st) (Some referral_code), st)) (\<lambda>query.
     let json_data = JObj [(''query'', JStr query), (''referralToken'', JStr referral_code),
                           (''username'', JStr username)] in
     and_then (send env POST AuthProvider (Some json_data)) (\<lambda>resp.
     and_then (resp_json resp) (\<lambda>rj.
     and_then (resp_text resp) (\<lambda>txt1.
       if sublist ''limit'' txt1 then lift (Inl RefCodeError)
       else
         and_then (resp_text resp) (\<lambda>txt2.
           if sublist ''already connected'' txt2 then lift (Inl AccountUsedError)
           else
             and_then (lift (py_get rj ''token'')) (\<lambda>token.
             and_then (lift (py_get token ''access'')) (\<lambda>access.
             and_then (lift (py_str_add ''Bearer '' access)) (\<lambda>h.
             and_then (set_authorization h) (\<lambda>_.
             and_then (lift (py_get rj ''token'')) (\<lambda>token.
             and_then (lift (py_get token ''refresh'')) (\<lambda>r.
             and_then (set_refresh_token r) (\<lambda>_.
               ret True))))))))))))"

section \<open>The game loop\<close>

text \<open>
  One pass through the \<^verbatim>\<open>try\<close> block of \<^verbatim>\<open>play_game\<close> either leaves the loop
  (\<^verbatim>\<open>break\<close>) or reaches \<^verbatim>\<open>play_passes -= 1\<close> and hands the new counter to the next
  test of the loop condition.
\<close>

datatype step = Break | Continue int

definition play_pass :: "env \<Rightarrow> int \<Rightarrow> step io" where
  "play_pass env play_passes =
     and_then (sleep DelayPlay) (\<lambda>_.
     and_then (start_game env) (\<lambda>game_id.
       if \<not> py_truthy game_id \<or> game_id = JStr ''cannot start game''
       then and_then (log (CouldntStart play_passes)) (\<lambda>_. ret Break)
       else
         and_then (sleep DelayGame) (\<lambda>_.
         and_then (claim_game env game_id) (\<lambda>(msg, points).
           if msg = JBool True
           then
             and_then (log (FinishPlay points)) (\<lambda>_.
             and_then (sleep DelayGame) (\<lambda>_.
               ret (Continue (play_passes - 1))))
           else and_then (log (CouldntPlay msg play_passes)) (\<lambda>_. ret Break)))))"

text \<open>The \<^verbatim>\<open>except Exception\<close> handler: log the error, sleep the error delay.\<close>

definition on_error :: "error \<Rightarrow> bot \<Rightarrow> bot" where
  "on_error e st = snd (and_then (log (PlayError e)) (\<lambda>_. sleep DelayErrorPlay) st)"

text \<open>
  \<^verbatim>\<open>while play_passes:\<close> runs as long as the counter is not zero. The loop need not
  end, so it is a partial function: \<open>None\<close> is a run that never returns, \<open>Some (n, st)\<close>
  a run that leaves the loop with the counter at \<open>n\<close> in state \<open>st\<close>.
\<close>

partial_function (option) play_game :: "env \<Rightarrow> int \<Rightarrow> bot \<Rightarrow> (int \<times> bot) option" where
  "play_game env play_passes st =
     (if play_passes = 0 then Some (play_passes, st)
      else
        (case play_pass env play_passes st of
           (Inr Break, st') \<Rightarrow> Some (play_passes, st')
         | (Inr (Continue n), st') \<Rightarrow> play_game env n st'
         | (Inl e, st') \<Rightarrow> play_game env play_passes (on_error e st')))"

section \<open>Histories and services\<close>

text \<open>
  The statements below count events of a history and describe how a service answers.
  A start/claim cycle of the game loop shows in the history as one request to
  \<open>GamePlay\<close>, the requests of one call of \<open>claim_game\<close> to \<open>GameClaim\<close> (one, or two
  when the first status is not 200), and, when the claim succeeded, the line
  \<^verbatim>\<open>Finish play in game!\<close> of the log.
\<close>

definition requests_to :: "endpoint \<Rightarrow> event list \<Rightarrow> nat" where
  "requests_to ep evs =
     length (filter (\<lambda>ev. case ev of Request rq \<Rightarrow> endpoint rq = ep | _ \<Rightarrow> False) evs)"

definition finished_games :: "event list \<Rightarrow> nat" where
  "finished_games evs =
     length (filter (\<lambda>ev. case ev of Log (FinishPlay p) \<Rightarrow> True | _ \<Rightarrow> False) evs)"

definition accepted_game_id :: "json \<Rightarrow> bool" where
  "accepted_game_id g = (py_truthy g \<and> g \<noteq> JStr ''cannot start game'')"

definition answers_game_id :: "error + response \<Rightarrow> bool" where
  "answers_game_id r =
     (case r of
        Inr resp \<Rightarrow>
          (case json_body resp of
             Some (JObj kvs) \<Rightarrow>
               (case map_of kvs ''gameId'' of Some g \<Rightarrow> accepted_game_id g | None \<Rightarrow> False)
           | _ \<Rightarrow> False)
      | Inl e \<Rightarrow> False)"

definition answers_ok :: "error + response \<Rightarrow> bool" where
  "answers_ok r = (case r of Inr resp \<Rightarrow> text_body resp = Some ''OK'' | Inl e \<Rightarrow> False)"

definition answers_cannot_start :: "error + response \<Rightarrow> bool" where
  "answers_cannot_start r =
     (case r of
        Inr resp \<Rightarrow>
          (case json_body resp of
             Some (JObj kvs) \<Rightarrow>
               map_of kvs ''gameId'' = None \<and>
               map_of kvs ''message'' = Some (JStr ''cannot start game'')
           | _ \<Rightarrow> False)
      | Inl e \<Rightarrow> False)"

definition always_playable :: "env \<Rightarrow> bool" where
  "always_playable env =
     (\<forall>hist rq. (endpoint rq = GamePlay \<longrightarrow> answers_game_id (service env hist rq)) \<and>
                (endpoint rq = GameClaim \<longrightarrow> answers_ok (service env hist rq)))"

definition refuses_second_start :: "env \<Rightarrow> bool" where
  "refuses_second_start env =
     (\<forall>hist rq.
        (endpoint rq = GamePlay \<and> requests_to GamePlay hist = 0 \<longrightarrow>
           answers_game_id (service env hist rq)) \<and>
        (endpoint rq = GamePlay \<and> requests_to GamePlay hist = 1 \<longrightarrow>
           answers_cannot_start (service env hist rq)) \<and>
        (endpoint rq = GameClaim \<longrightarrow> answers_ok (service env hist rq)))"

text \<open>Two services and the answers they give, used to run the loop on concrete inputs.\<close>

definition game_id_response :: response where
  \<open>game_id_response =
     \<lparr>status = 200, text_body = Some ''{"gameId": "g1"}'',
      json_body = Some (JObj [(''gameId'', JStr ''g1'')])\<rparr>\<close>

definition ok_response :: response where
  "ok_response = \<lparr>status = 200, text_body = Some ''OK'', json_body = None\<rparr>"

definition cannot_start_response :: response where
  \<open>cannot_start_response =
     \<lparr>status = 200, text_body = Some ''{"message": "cannot start game"}'',
      json_body = Some (JObj [(''message'', JStr ''cannot start game'')])\<rparr>\<close>

definition env_playable :: env where
  "env_playable =
     \<lparr>service = (\<lambda>hist rq. if endpoint rq = GamePlay then Inr game_id_response
                             else Inr ok_response),
      get_tg_web_data = (\<lambda>hist r. Inr ''query''),
      rand_points = (\<lambda>hist. 150)\<rparr>"

definition env_refusing :: env where
  "env_refusing =
     \<lparr>service = (\<lambda>hist rq.
                   if endpoint rq = GamePlay
                   then (if requests_to GamePlay hist = 0 then Inr game_id_response
                         else Inr cannot_start_response)
                   else Inr ok_response),
      get_tg_web_data = (\<lambda>hist r. Inr ''query''),
      rand_points = (\<lambda>hist. 150)\<rparr>"

definition try_later_response :: response where
  \<open>try_later_response =
     \<lparr>status = 200, text_body = Some ''{"message": "try again later"}'',
      json_body = Some (JObj [(''message'', JStr ''try again later'')])\<rparr>\<close>

definition env_try_later :: env where
  "env_try_later =
     \<lparr>service = (\<lambda>hist rq. if endpoint rq = GamePlay then Inr try_later_response
                             else Inr ok_response),
      get_tg_web_data = (\<lambda>hist r. Inr ''query''),
      rand_points = (\<lambda>hist. 150)\<rparr>"

definition start_request :: request where
  "start_request = \<lparr>meth = POST, endpoint = GamePlay, body = None, authorization = None\<rparr>"

definition claim_request :: "string \<Rightarrow> request" where
  "claim_request g =
     \<lparr>meth = POST, endpoint = GameClaim,
      body = Some (JObj [(''gameId'', JStr g), (''points'', JInt 150)]), authorization = None\<rparr>"

definition finished_pass :: "string \<Rightarrow> event list" where
  "finished_pass g =
     [Sleep DelayPlay, Request start_request, Sleep DelayGame, Request (claim_request g),
      Log (FinishPlay 150), Sleep DelayGame]"

definition env_offline :: env where
  "env_offline =
     \<lparr>service = (\<lambda>hist rq. Inl TransportError),
      get_tg_web_data = (\<lambda>hist r. Inr ''query''),
      rand_points = (\<lambda>hist. 150)\<rparr>"

text \<open>The request that \<open>login\<close> sends for the payload \<open>query\<close> of the identity provider.\<close>

definition login_request :: "bot \<Rightarrow> string \<Rightarrow> request" where
  "login_request st query = mk_request st POST AuthProvider (Some (JObj [(''query'', JStr query)]))"


definition no_access_response :: response where
  \<open>no_access_response =
     \<lparr>status = 200, text_body = Some ''{"token": {"refresh": "R1"}}'',
      json_body = Some (JObj [(''token'', JObj [(''refresh'', JStr ''R1'')])])\<rparr>\<close>


definition env_login_no_access :: env where
  "env_login_no_access =
     \<lparr>service = (\<lambda>hist rq. if endpoint rq = AuthProvider then Inr no_access_response
                             else Inr ok_response),
      get_tg_web_data = (\<lambda>hist r. Inr ''query''),
      rand_points = (\<lambda>hist. 150)\<rparr>"

definition bot_logged_in :: bot where
  "bot_logged_in =
     \<lparr>headers = [''Authorization'' \<mapsto> ''Bearer A0''], refresh_token = JStr ''R0'', trace = []\<rparr>"

text \<open>
  A service that gives the same answer to every request, the requests of \<open>refresh\<close> and
  \<open>register\<close>, the shapes of a millisecond timestamp that may be missing, and answers
  used to run the operations on concrete inputs.
\<close>

definition env_answering :: "response \<Rightarrow> env" where
  "env_answering resp =
     \<lparr>service = (\<lambda>hist rq. Inr resp),
      get_tg_web_data = (\<lambda>hist r. Inr ''query''),
      rand_points = (\<lambda>hist. 150)\<rparr>"

definition refresh_request :: "bot \<Rightarrow> request" where
  "refresh_request st =
     mk_request st POST AuthRefresh (Some (JObj [(''refresh'', refresh_token st)]))"

definition no_timestamp_response :: response where
  \<open>no_timestamp_response =
     \<lparr>status = 200, text_body = Some ''{"availableBalance": "12.5"}'',
      json_body = Some (JObj [(''availableBalance'', JStr ''12.5'')])\<rparr>\<close>

definition no_balance_response :: response where
  \<open>no_balance_response =
     \<lparr>status = 200, text_body = Some ''{"timestamp": 1700000000123}'',
      json_body = Some (JObj [(''timestamp'', JInt 1700000000123)])\<rparr>\<close>

definition tasks_error_response :: response where
  \<open>tasks_error_response =
     \<lparr>status = 200, text_body = Some ''{"message": "maintenance"}'',
      json_body = Some (JObj [(''message'', JStr ''maintenance'')])\<rparr>\<close>

definition access_only_response :: response where
  \<open>access_only_response =
     \<lparr>status = 200, text_body = Some ''{"access": "A2"}'',
      json_body = Some (JObj [(''access'', JStr ''A2'')])\<rparr>\<close>

definition bad_gateway_response :: response where
  "bad_gateway_response =
     \<lparr>status = 502, text_body = Some ''<html><body>502 Bad Gateway</body></html>'', json_body = None\<rparr>"

text \<open>
  A timestamp field as \<open>balance\<close> can digest it: missing, null, or an integer number of
  milliseconds of absolute value below \<open>2 ^ 53\<close>, where the division in double precision
  is known to return.
\<close>

definition absent_or_ms :: "json option \<Rightarrow> bool" where
  "absent_or_ms v = (v = None \<or> v = Some JNull \<or> (\<exists>ts. v = Some (JInt ts) \<and> \<bar>ts\<bar> < 2 ^ 53))"

definition balance_response :: response where
  \<open>balance_response =
     \<lparr>status = 200,
      text_body = Some ''{"timestamp": 1700000000123, "playPasses": 3, "farming": {"startTime": 1699999000999}}'',
      json_body = Some (JObj [(''timestamp'', JInt 1700000000123), (''playPasses'', JInt 3),
                              (''farming'', JObj [(''startTime'', JInt 1699999000999)])])\<rparr>\<close>

definition register_request :: "bot \<Rightarrow> string \<Rightarrow> string \<Rightarrow> string \<Rightarrow> request" where
  "register_request st query referral_code username =
     mk_request st POST AuthProvider
       (Some (JObj [(''query'', JStr query), (''referralToken'', JStr referral_code),
                    (''username'', JStr username)]))"

definition both_markers_response :: response where
  \<open>both_markers_response =
     \<lparr>status = 400,
      text_body = Some ''{"message": "account is already connected", "limit": 0}'',
      json_body = Some (JObj [(''message'', JStr ''account is already connected''), (''limit'', JInt 0)])\<rparr>\<close>

definition already_connected_response :: response where
  \<open>already_connected_response =
     \<lparr>status = 200,
      text_body = Some ''{"message": "account is already connected"}'',
      json_body = Some (JObj [(''message'', JStr ''account is already connected'')])\<rparr>\<close>

definition limit_response :: response where
  \<open>limit_response =
     \<lparr>status = 500,
      text_body = Some ''{"message": "referral limit reached"}'',
      json_body = Some (JObj [(''message'', JStr ''referral limit reached'')])\<rparr>\<close>

section \<open>Basic facts about the model\<close>

lemmas io_defs = and_then_def ret_def lift_def emit_def sleep_def log_def send_def resp_json_def resp_text_def
  set_authorization_def set_refresh_token_def Let_def

lemma endpoint_mk_request [simp]: "endpoint (mk_request st m ep b) = ep"
  by (simp add: mk_request_def)

lemma start_game_answers_game_id:
  assumes "answers_game_id (service env (trace st) (mk_request st POST GamePlay None))"
  shows "\<exists>g. accepted_game_id g \<and>
           start_game env st =
             (Inr g, st\<lparr>trace := trace st @ [Request (mk_request st POST GamePlay None)]\<rparr>)"
  using assms
  by (auto simp: answers_game_id_def start_game_def io_defs split: sum.splits option.splits json.splits)

lemma answers_okD: "answers_ok r \<Longrightarrow> \<exists>resp. r = Inr resp \<and> text_body resp = Some ''OK''"
  by (cases r) (simp_all add: answers_ok_def)

lemma claim_game_answers_ok:
  assumes "\<forall>hist rq. endpoint rq = GameClaim \<longrightarrow> answers_ok (service env hist rq)"
  shows "\<exists>evs. claim_game env g st = (Inr (JBool True, rand_points env (trace st)), st\<lparr>trace := trace st @ evs\<rparr>) \<and>
           requests_to GamePlay evs = 0 \<and> finished_games evs = 0 \<and>
           1 \<le> requests_to GameClaim evs \<and> requests_to GameClaim evs \<le> 2"
proof -
  let ?b = "Some (JObj [(''gameId'', g), (''points'', JInt (rand_points env (trace st)))])"
  let ?rq = "mk_request st POST GameClaim ?b"
  have "answers_ok (service env (trace st) ?rq)" using assms by simp
  then obtain r1 where r1: "service env (trace st) ?rq = Inr r1" "text_body r1 = Some ''OK''"
    by (blast dest: answers_okD)
  show ?thesis
  proof (cases "status r1 = 200")
    case True
    with r1 have "claim_game env g st = (Inr (JBool True, rand_points env (trace st)), st\<lparr>trace := trace st @ [Request ?rq]\<rparr>)"
      by (simp add: claim_game_def io_defs)
    then show ?thesis
      by (intro exI[of _ "[Request ?rq]"]) (simp add: requests_to_def finished_games_def)
  next
    case False
    let ?st1 = "st\<lparr>trace := trace st @ [Request ?rq, Sleep (DelaySeconds 1)]\<rparr>"
    have "answers_ok (service env (trace ?st1) (mk_request ?st1 POST GameClaim ?b))" using assms by simp
    then obtain r2 where r2: "service env (trace ?st1) (mk_request ?st1 POST GameClaim ?b) = Inr r2" "text_body r2 = Some ''OK''"
      by (blast dest: answers_okD)
    have eq: "mk_request ?st1 POST GameClaim ?b = ?rq" by (simp add: mk_request_def)
    from False r1 r2 have "claim_game env g st =
       (Inr (JBool True, rand_points env (trace st)), st\<lparr>trace := trace st @ [Request ?rq, Sleep (DelaySeconds 1), Request ?rq]\<rparr>)"
      by (simp add: claim_game_def io_defs eq) (simp add: mk_request_def)
    then show ?thesis
      by (intro exI[of _ "[Request ?rq, Sleep (DelaySeconds 1), Request ?rq]"]) (simp add: requests_to_def finished_games_def)
  qed
qed

lemma requests_to_append [simp]:
  "requests_to ep (xs @ ys) = requests_to ep xs + requests_to ep ys"
  by (simp add: requests_to_def)

lemma finished_games_append [simp]:
  "finished_games (xs @ ys) = finished_games xs + finished_games ys"
  by (simp add: finished_games_def)

lemma play_pass_completes:
  assumes start: "answers_game_id (service env (trace st @ [Sleep DelayPlay]) (mk_request st POST GamePlay None))"
    and claims: "\<forall>hist rq. endpoint rq = GameClaim \<longrightarrow> answers_ok (service env hist rq)"
  shows "\<exists>evs. play_pass env n st = (Inr (Continue (n - 1)), st\<lparr>trace := trace st @ evs\<rparr>) \<and>
           requests_to GamePlay evs = 1 \<and> finished_games evs = 1 \<and>
           1 \<le> requests_to GameClaim evs \<and> requests_to GameClaim evs \<le> 2"
proof -
  let ?st1 = "st\<lparr>trace := trace st @ [Sleep DelayPlay]\<rparr>"
  let ?rq = "mk_request st POST GamePlay None"
  have rq: "mk_request ?st1 POST GamePlay None = ?rq" by (simp add: mk_request_def)
  from start obtain g where g: "accepted_game_id g"
    and sg: "start_game env ?st1 = (Inr g, ?st1\<lparr>trace := trace ?st1 @ [Request ?rq]\<rparr>)"
    using start_game_answers_game_id [of env ?st1] by (auto simp: rq)
  let ?st2 = "st\<lparr>trace := trace st @ [Sleep DelayPlay, Request ?rq, Sleep DelayGame]\<rparr>"
  from claim_game_answers_ok [OF claims, of g ?st2]
  obtain cevs where cg: "claim_game env g ?st2 = (Inr (JBool True, rand_points env (trace ?st2)), ?st2\<lparr>trace := trace ?st2 @ cevs\<rparr>)"
    and cnt: "requests_to GamePlay cevs = 0" "finished_games cevs = 0"
             "1 \<le> requests_to GameClaim cevs" "requests_to GameClaim cevs \<le> 2"
    by blast
  let ?evs = "[Sleep DelayPlay, Request ?rq, Sleep DelayGame] @ cevs @
              [Log (FinishPlay (rand_points env (trace ?st2))), Sleep DelayGame]"
  have "play_pass env n st = (Inr (Continue (n - 1)), st\<lparr>trace := trace st @ ?evs\<rparr>)"
    using g sg cg
    by (simp add: play_pass_def and_then_def ret_def emit_def sleep_def log_def accepted_game_id_def)
  moreover have "requests_to GamePlay ?evs = 1" "finished_games ?evs = 1"
    "1 \<le> requests_to GameClaim ?evs" "requests_to GameClaim ?evs \<le> 2"
    using cnt by (simp_all add: requests_to_def finished_games_def)
  ultimately show ?thesis by blast
qed

lemma play_pass_refused:
  assumes "answers_cannot_start (service env (trace st @ [Sleep DelayPlay]) (mk_request st POST GamePlay None))"
  shows "play_pass env n st =
           (Inr Break, st\<lparr>trace := trace st @ [Sleep DelayPlay, Request (mk_request st POST GamePlay None),
                                                Log (CouldntStart n)]\<rparr>)"
  using assms
  by (auto simp: answers_cannot_start_def play_pass_def start_game_def io_defs mk_request_def
           split: sum.splits option.splits json.splits)

lemma play_game_zero: "play_game env 0 st = Some (0, st)"
  by (subst play_game.simps) simp

lemma play_game_continue:
  "n \<noteq> 0 \<Longrightarrow> play_pass env n st = (Inr (Continue m), st') \<Longrightarrow>
   play_game env n st = play_game env m st'"
  by (subst play_game.simps) simp

lemma play_game_break:
  "n \<noteq> 0 \<Longrightarrow> play_pass env n st = (Inr Break, st') \<Longrightarrow> play_game env n st = Some (n, st')"
  by (subst play_game.simps) simp

lemma play_game_error:
  "n \<noteq> 0 \<Longrightarrow> play_pass env n st = (Inl e, st') \<Longrightarrow>
   play_game env n st = play_game env n (on_error e st')"
  by (subst play_game.simps) simp

lemma play_game_exhausts:
  assumes "always_playable env"
  shows "\<exists>evs. play_game env (int k) st = Some (0, st\<lparr>trace := trace st @ evs\<rparr>) \<and>
           requests_to GamePlay evs = k \<and> finished_games evs = k \<and>
           k \<le> requests_to GameClaim evs \<and> requests_to GameClaim evs \<le> 2 * k"
proof (induction k arbitrary: st)
  case 0
  have "play_game env (int 0) st = Some (0, st\<lparr>trace := trace st @ []\<rparr>)"
    by (simp add: play_game_zero)
  then show ?case
    by (intro exI[of _ "[]"]) (simp add: requests_to_def finished_games_def)
next
  case (Suc k)
  from assms have start: "answers_game_id (service env (trace st @ [Sleep DelayPlay]) (mk_request st POST GamePlay None))"
    and claims: "\<forall>hist rq. endpoint rq = GameClaim \<longrightarrow> answers_ok (service env hist rq)"
    by (simp_all add: always_playable_def)
  from play_pass_completes [OF start claims, of "int (Suc k)"]
  obtain evs1 where p1: "play_pass env (int (Suc k)) st = (Inr (Continue (int (Suc k) - 1)), st\<lparr>trace := trace st @ evs1\<rparr>)"
    and c1: "requests_to GamePlay evs1 = 1" "finished_games evs1 = 1"
            "1 \<le> requests_to GameClaim evs1" "requests_to GameClaim evs1 \<le> 2"
    by blast
  from Suc.IH [of "st\<lparr>trace := trace st @ evs1\<rparr>"]
  obtain evs2 where p2: "play_game env (int k) (st\<lparr>trace := trace st @ evs1\<rparr>) = Some (0, st\<lparr>trace := trace st @ evs1 @ evs2\<rparr>)"
    and c2: "requests_to GamePlay evs2 = k" "finished_games evs2 = k"
            "k \<le> requests_to GameClaim evs2" "requests_to GameClaim evs2 \<le> 2 * k"
    by auto
  have "int (Suc k) \<noteq> 0" by simp
  from play_game_continue [OF this p1] p2
  have "play_game env (int (Suc k)) st = Some (0, st\<lparr>trace := trace st @ (evs1 @ evs2)\<rparr>)"
    by simp
  moreover have "requests_to GamePlay (evs1 @ evs2) = Suc k" "finished_games (evs1 @ evs2) = Suc k"
    "Suc k \<le> requests_to GameClaim (evs1 @ evs2)" "requests_to GameClaim (evs1 @ evs2) \<le> 2 * Suc k"
    using c1 c2 by simp_all
  ultimately show ?case by blast
qed

lemma play_game_second_start_refused:
  assumes env: "refuses_second_start env" and fresh: "requests_to GamePlay (trace st) = 0"
    and n: "n \<noteq> 0" "n \<noteq> 1"
  shows "\<exists>evs. play_game env n st = Some (n - 1, st\<lparr>trace := trace st @ evs\<rparr>) \<and>
           requests_to GamePlay evs = 2 \<and> finished_games evs = 1 \<and>
           1 \<le> requests_to GameClaim evs \<and> requests_to GameClaim evs \<le> 2 \<and>
           last evs = Log (CouldntStart (n - 1))"
proof -
  from env fresh have start: "answers_game_id (service env (trace st @ [Sleep DelayPlay]) (mk_request st POST GamePlay None))"
    and claims: "\<forall>hist rq. endpoint rq = GameClaim \<longrightarrow> answers_ok (service env hist rq)"
    by (simp_all add: refuses_second_start_def requests_to_def)
  from play_pass_completes [OF start claims, of n]
  obtain evs1 where p1: "play_pass env n st = (Inr (Continue (n - 1)), st\<lparr>trace := trace st @ evs1\<rparr>)"
    and c1: "requests_to GamePlay evs1 = 1" "finished_games evs1 = 1"
            "1 \<le> requests_to GameClaim evs1" "requests_to GameClaim evs1 \<le> 2"
    by blast
  let ?st1 = "st\<lparr>trace := trace st @ evs1\<rparr>"
  let ?rq = "mk_request ?st1 POST GamePlay None"
  have "requests_to GamePlay (trace ?st1 @ [Sleep DelayPlay]) = 1"
    using fresh c1 by (simp add: requests_to_def)
  with env have "answers_cannot_start (service env (trace ?st1 @ [Sleep DelayPlay]) ?rq)"
    by (simp add: refuses_second_start_def)
  from play_pass_refused [OF this, of "n - 1"]
  have p2: "play_pass env (n - 1) ?st1 =
      (Inr Break, st\<lparr>trace := trace st @ (evs1 @ [Sleep DelayPlay, Request ?rq, Log (CouldntStart (n - 1))])\<rparr>)"
    by simp
  let ?evs = "evs1 @ [Sleep DelayPlay, Request ?rq, Log (CouldntStart (n - 1))]"
  have "n - 1 \<noteq> 0" using n by simp
  from play_game_continue [OF n(1) p1] play_game_break [OF this p2]
  have "play_game env n st = Some (n - 1, st\<lparr>trace := trace st @ ?evs\<rparr>)"
    by simp
  moreover have "requests_to GamePlay ?evs = 2" "finished_games ?evs = 1"
    "1 \<le> requests_to GameClaim ?evs" "requests_to GameClaim ?evs \<le> 2"
    "last ?evs = Log (CouldntStart (n - 1))"
    using c1 by (simp_all add: requests_to_def finished_games_def)
  ultimately show ?thesis by blast
qed

lemma start_game_frame:
  assumes "start_game env st = (r, st')"
  shows "st' = st\<lparr>trace := trace st @ [Request (mk_request st POST GamePlay None)]\<rparr>"
  using assms
  by (auto simp: start_game_def io_defs split: sum.splits option.splits if_splits)

lemma claim_game_frame:
  assumes "claim_game env g st = (r, st')"
  shows "\<exists>evs. st' = st\<lparr>trace := trace st @ evs\<rparr> \<and> finished_games evs = 0 \<and>
           requests_to GamePlay evs = 0 \<and>
           1 \<le> requests_to GameClaim evs \<and> requests_to GameClaim evs \<le> 2"
proof -
  let ?b = "Some (JObj [(''gameId'', g), (''points'', JInt (rand_points env (trace st)))])"
  let ?rq = "mk_request st POST GameClaim ?b"
  have "st' = st\<lparr>trace := trace st @ [Request ?rq]\<rparr> \<or>
        st' = st\<lparr>trace := trace st @ [Request ?rq, Sleep (DelaySeconds 1), Request ?rq]\<rparr>"
    using assms
    by (auto simp: claim_game_def io_defs mk_request_def split: sum.splits option.splits if_splits)
  then show ?thesis
  proof
    assume "st' = st\<lparr>trace := trace st @ [Request ?rq]\<rparr>"
    then show ?thesis
      by (intro exI[of _ "[Request ?rq]"]) (simp add: requests_to_def finished_games_def)
  next
    assume "st' = st\<lparr>trace := trace st @ [Request ?rq, Sleep (DelaySeconds 1), Request ?rq]\<rparr>"
    then show ?thesis
      by (intro exI[of _ "[Request ?rq, Sleep (DelaySeconds 1), Request ?rq]"])
         (simp add: requests_to_def finished_games_def)
  qed
qed

lemma claim_game_True:
  assumes "claim_game env g st = (Inr (JBool True, p), st')"
  shows "\<exists>hist rq resp. trace st' = hist @ [Request rq] \<and> endpoint rq = GameClaim \<and>
           body rq = Some (JObj [(''gameId'', g), (''points'', JInt p)]) \<and>
           service env hist rq = Inr resp \<and> text_body resp = Some ''OK''"
  using assms
  by (auto simp: claim_game_def io_defs mk_request_def split: sum.splits option.splits if_splits)

lemma start_game_origin:
  assumes "start_game env st = (Inr g, s1)" and "py_truthy g"
  shows "\<exists>resp kvs. service env (trace st) (mk_request st POST GamePlay None) = Inr resp \<and>
           json_body resp = Some (JObj kvs) \<and>
           (map_of kvs ''gameId'' = Some g \<or>
            map_of kvs ''gameId'' = None \<and> map_of kvs ''message'' = Some g)"
proof -
  from assms(1) obtain resp where r: "service env (trace st) (mk_request st POST GamePlay None) = Inr resp"
    by (cases "service env (trace st) (mk_request st POST GamePlay None)")
       (auto simp: start_game_def io_defs)
  from assms(1) r obtain d where d: "json_body resp = Some d"
    by (cases "json_body resp") (auto simp: start_game_def io_defs)
  from assms r d obtain kvs where k: "d = JObj kvs"
    by (cases d) (auto simp: start_game_def io_defs split: if_splits)
  from assms r d k have "map_of kvs ''gameId'' = Some g \<or>
            map_of kvs ''gameId'' = None \<and> map_of kvs ''message'' = Some g"
    by (auto simp: start_game_def io_defs split: if_splits option.splits)
  with r d k show ?thesis by blast
qed

lemma play_pass_cases:
  assumes "play_pass env n st = (r, st')"
  obtains
    (start_raised) e where
      "start_game env (st\<lparr>trace := trace st @ [Sleep DelayPlay]\<rparr>) = (Inl e, st')" "r = Inl e"
  | (not_started) g s1 where
      "start_game env (st\<lparr>trace := trace st @ [Sleep DelayPlay]\<rparr>) = (Inr g, s1)"
      "\<not> accepted_game_id g" "r = Inr Break"
      "st' = s1\<lparr>trace := trace s1 @ [Log (CouldntStart n)]\<rparr>"
  | (claim_raised) g s1 e where
      "start_game env (st\<lparr>trace := trace st @ [Sleep DelayPlay]\<rparr>) = (Inr g, s1)"
      "accepted_game_id g"
      "claim_game env g (s1\<lparr>trace := trace s1 @ [Sleep DelayGame]\<rparr>) = (Inl e, st')" "r = Inl e"
  | (not_claimed) g s1 msg p s2 where
      "start_game env (st\<lparr>trace := trace st @ [Sleep DelayPlay]\<rparr>) = (Inr g, s1)"
      "accepted_game_id g"
      "claim_game env g (s1\<lparr>trace := trace s1 @ [Sleep DelayGame]\<rparr>) = (Inr (msg, p), s2)"
      "msg \<noteq> JBool True" "r = Inr Break"
      "st' = s2\<lparr>trace := trace s2 @ [Log (CouldntPlay msg n)]\<rparr>"
  | (finished) g s1 p s2 where
      "start_game env (st\<lparr>trace := trace st @ [Sleep DelayPlay]\<rparr>) = (Inr g, s1)"
      "accepted_game_id g"
      "claim_game env g (s1\<lparr>trace := trace s1 @ [Sleep DelayGame]\<rparr>) = (Inr (JBool True, p), s2)"
      "r = Inr (Continue (n - 1))"
      "st' = s2\<lparr>trace := trace s2 @ [Log (FinishPlay p), Sleep DelayGame]\<rparr>"
proof -
  let ?st0 = "st\<lparr>trace := trace st @ [Sleep DelayPlay]\<rparr>"
  obtain r1 s1 where sg: "start_game env ?st0 = (r1, s1)" by (cases "start_game env ?st0")
  show thesis
  proof (cases r1)
    case (Inl e)
    with sg assms have "r = Inl e" "st' = s1"
      by (simp_all add: play_pass_def and_then_def sleep_def emit_def)
    with sg Inl show thesis using start_raised by simp
  next
    case (Inr g)
    show thesis
    proof (cases "accepted_game_id g")
      case False
      with sg Inr assms have "r = Inr Break" "st' = s1\<lparr>trace := trace s1 @ [Log (CouldntStart n)]\<rparr>"
        by (auto simp: play_pass_def and_then_def sleep_def emit_def log_def ret_def accepted_game_id_def)
      with sg Inr False show thesis using not_started by simp
    next
      case True
      let ?s1' = "s1\<lparr>trace := trace s1 @ [Sleep DelayGame]\<rparr>"
      obtain r2 s2 where cg: "claim_game env g ?s1' = (r2, s2)" by (cases "claim_game env g ?s1'")
      show thesis
      proof (cases r2)
        case (Inl e)
        with sg \<open>r1 = Inr g\<close> True cg assms have "r = Inl e" "st' = s2"
          by (auto simp: play_pass_def and_then_def sleep_def emit_def log_def ret_def accepted_game_id_def)
        with sg \<open>r1 = Inr g\<close> True cg Inl show thesis using claim_raised by simp
      next
        case (Inr mp)
        obtain msg p where mp: "mp = (msg, p)" by (cases mp)
        show thesis
        proof (cases "msg = JBool True")
          case t: True
          with sg \<open>r1 = Inr g\<close> True cg Inr mp assms
          have "r = Inr (Continue (n - 1))" "st' = s2\<lparr>trace := trace s2 @ [Log (FinishPlay p), Sleep DelayGame]\<rparr>"
            by (auto simp: play_pass_def and_then_def sleep_def emit_def log_def ret_def accepted_game_id_def)
          with sg \<open>r1 = Inr g\<close> True cg Inr mp t show thesis using finished by simp
        next
          case f: False
          with sg \<open>r1 = Inr g\<close> True cg Inr mp assms
          have "r = Inr Break" "st' = s2\<lparr>trace := trace s2 @ [Log (CouldntPlay msg n)]\<rparr>"
            by (auto simp: play_pass_def and_then_def sleep_def emit_def log_def ret_def accepted_game_id_def)
          with sg \<open>r1 = Inr g\<close> True cg Inr mp f show thesis using not_claimed by simp
        qed
      qed
    qed
  qed
qed

lemma play_pass_frame:
  assumes "play_pass env n st = (r, st')"
  shows "\<exists>evs. st' = st\<lparr>trace := trace st @ evs\<rparr> \<and>
           finished_games evs = (case r of Inr (Continue m) \<Rightarrow> 1 | _ \<Rightarrow> 0) \<and>
           (\<forall>m. r = Inr (Continue m) \<longrightarrow> m = n - 1)"
  using assms
proof (cases rule: play_pass_cases)
  case (start_raised e)
  from start_game_frame [OF start_raised(1)] start_raised(2) show ?thesis
    by (intro exI[of _ "[Sleep DelayPlay, Request (mk_request st POST GamePlay None)]"])
       (simp add: finished_games_def mk_request_def)
next
  case (not_started g s1)
  from start_game_frame [OF not_started(1)] not_started show ?thesis
    by (intro exI[of _ "[Sleep DelayPlay, Request (mk_request st POST GamePlay None), Log (CouldntStart n)]"])
       (simp add: finished_games_def mk_request_def)
next
  case (claim_raised g s1 e)
  from claim_game_frame [OF claim_raised(3)] obtain evs where
    "st' = s1\<lparr>trace := trace s1 @ [Sleep DelayGame] @ evs\<rparr>" "finished_games evs = 0" by auto
  with start_game_frame [OF claim_raised(1)] claim_raised(4) show ?thesis
    by (intro exI[of _ "[Sleep DelayPlay, Request (mk_request st POST GamePlay None), Sleep DelayGame] @ evs"])
       (simp add: finished_games_def mk_request_def)
next
  case (not_claimed g s1 msg p s2)
  from claim_game_frame [OF not_claimed(3)] obtain evs where
    "s2 = s1\<lparr>trace := trace s1 @ [Sleep DelayGame] @ evs\<rparr>" "finished_games evs = 0" by auto
  with start_game_frame [OF not_claimed(1)] not_claimed(5,6) show ?thesis
    by (intro exI[of _ "[Sleep DelayPlay, Request (mk_request st POST GamePlay None), Sleep DelayGame] @ evs
           @ [Log (CouldntPlay msg n)]"])
       (simp add: finished_games_def mk_request_def)
next
  case (finished g s1 p s2)
  from claim_game_frame [OF finished(3)] obtain evs where
    "s2 = s1\<lparr>trace := trace s1 @ [Sleep DelayGame] @ evs\<rparr>" "finished_games evs = 0" by auto
  with start_game_frame [OF finished(1)] finished(4,5) show ?thesis
    by (intro exI[of _ "[Sleep DelayPlay, Request (mk_request st POST GamePlay None), Sleep DelayGame] @ evs
           @ [Log (FinishPlay p), Sleep DelayGame]"])
       (simp add: finished_games_def mk_request_def)
qed

lemma on_error_frame: "on_error e st = st\<lparr>trace := trace st @ [Log (PlayError e), Sleep DelayErrorPlay]\<rparr>"
  by (simp add: on_error_def and_then_def log_def sleep_def emit_def)

lemma play_game_counts_aux:
  assumes "play_game env n st = Some y"
  shows "\<exists>evs. snd y = st\<lparr>trace := trace st @ evs\<rparr> \<and> n - fst y = int (finished_games evs)"
proof (rule play_game.raw_induct
    [where P = "\<lambda>env n st y. \<exists>evs. snd y = st\<lparr>trace := trace st @ evs\<rparr> \<and>
                                  n - fst y = int (finished_games evs)", OF _ assms], goal_cases)
  case (1 pg env n st y)
  show ?case
  proof (cases "n = 0")
    case True
    with 1(2) have "y = (0, st)" by simp
    then show ?thesis using True
      by (intro exI[of _ "[]"]) (simp add: finished_games_def)
  next
    case False
    obtain r s' where pp: "play_pass env n st = (r, s')" by (cases "play_pass env n st")
    from play_pass_frame [OF pp] obtain evs1 where
      s': "s' = st\<lparr>trace := trace st @ evs1\<rparr>"
      and f1: "finished_games evs1 = (case r of Inr (Continue m) \<Rightarrow> 1 | _ \<Rightarrow> 0)"
      and m1: "\<forall>m. r = Inr (Continue m) \<longrightarrow> m = n - 1" by blast
    show ?thesis
    proof (cases r)
      case (Inl e)
      with 1(2) False pp have "pg env n (on_error e s') = Some y" by simp
      from 1(1) [OF this] obtain evs2 where
        "snd y = (on_error e s')\<lparr>trace := trace (on_error e s') @ evs2\<rparr>"
        "n - fst y = int (finished_games evs2)" by blast
      with s' f1 Inl show ?thesis
        by (intro exI[of _ "evs1 @ [Log (PlayError e), Sleep DelayErrorPlay] @ evs2"])
           (simp add: on_error_frame finished_games_def)
    next
      case (Inr stp)
      show ?thesis
      proof (cases stp)
        case Break
        with 1(2) False pp Inr have "y = (n, s')" by simp
        with s' f1 Inr Break show ?thesis
          by (intro exI[of _ evs1]) simp
      next
        case (Continue k)
        with m1 Inr have k: "k = n - 1" by simp
        from 1(2) False pp Inr Continue have "pg env k s' = Some y" by simp
        from 1(1) [OF this] obtain evs2 where
          "snd y = s'\<lparr>trace := trace s' @ evs2\<rparr>" "k - fst y = int (finished_games evs2)" by blast
        with s' f1 Inr Continue k show ?thesis
          by (intro exI[of _ "evs1 @ evs2"]) simp
      qed
    qed
  qed
qed

lemma play_game_counts:
  assumes "play_game env n st = Some (m, st')"
  shows "\<exists>evs. st' = st\<lparr>trace := trace st @ evs\<rparr> \<and> n - m = int (finished_games evs)"
  using play_game_counts_aux [OF assms] by simp

lemma always_playable_never_breaks:
  assumes ok: "always_playable env0" and run: "play_game env0 n st = Some y"
  shows "fst y = 0"
proof -
  have "always_playable env0 \<longrightarrow> fst y = 0"
  proof (rule play_game.raw_induct
      [where P = "\<lambda>env n st y. always_playable env \<longrightarrow> fst y = 0", OF _ run], goal_cases)
    case (1 pg env n st y)
    show ?case
    proof
      assume env: "always_playable env"
      show "fst y = 0"
      proof (cases "n = 0")
        case True
        with 1(2) show ?thesis by auto
      next
        case False
        from env have "answers_game_id (service env (trace st @ [Sleep DelayPlay]) (mk_request st POST GamePlay None))"
          and "\<forall>hist rq. endpoint rq = GameClaim \<longrightarrow> answers_ok (service env hist rq)"
          by (simp_all add: always_playable_def)
        from play_pass_completes [OF this, of n] obtain s' where
          "play_pass env n st = (Inr (Continue (n - 1)), s')" by blast
        with 1(2) False have "pg env (n - 1) s' = Some y" by simp
        from 1(1) [OF this] env show ?thesis by simp
      qed
    qed
  qed
  with ok show ?thesis by simp
qed

lemma always_playable_env_playable: "always_playable env_playable"
  by (simp add: always_playable_def env_playable_def answers_game_id_def answers_ok_def
      game_id_response_def ok_response_def accepted_game_id_def)

lemmas env_defs = env_playable_def env_refusing_def env_try_later_def env_offline_def
  game_id_response_def ok_response_def cannot_start_response_def try_later_response_def
  start_request_def claim_request_def finished_pass_def init_bot_def

lemma play_pass_env_playable:
  "play_pass env_playable n init_bot = (Inr (Continue (n - 1)), init_bot\<lparr>trace := finished_pass ''g1''\<rparr>)"
  by (simp add: play_pass_def start_game_def claim_game_def io_defs mk_request_def env_defs)

lemma play_pass_env_offline:
  "play_pass env_offline n init_bot =
     (Inl TransportError, init_bot\<lparr>trace := [Sleep DelayPlay, Request start_request]\<rparr>)"
  by (simp add: play_pass_def start_game_def claim_game_def io_defs mk_request_def env_defs)

lemma play_pass_env_try_later:
  "play_pass env_try_later n init_bot =
     (Inr (Continue (n - 1)), init_bot\<lparr>trace := finished_pass ''try again later''\<rparr>)"
  by (simp add: play_pass_def start_game_def claim_game_def io_defs mk_request_def env_defs)

lemma py_get_token_access:
  "(\<exists>tok. py_get rj ''token'' = Inr tok \<and> (\<exists>acc. py_get tok ''access'' = Inr acc \<and> py_str_add ''Bearer '' acc = Inr h))
   \<longleftrightarrow> (\<exists>kvs tkvs a. rj = JObj kvs \<and> map_of kvs ''token'' = Some (JObj tkvs) \<and>
            map_of tkvs ''access'' = Some (JStr a) \<and> h = ''Bearer '' @ a)"
  apply (cases rj; simp)
  apply (auto split: option.splits)
  subgoal for kvs tok by (cases tok; auto split: option.splits elim: py_str_add.elims)
  done

lemma login_try_success:
  assumes "get_tg_web_data env (trace st) None = Inr q"
    and "service env (trace st) (login_request st q) = Inr resp"
    and "json_body resp = Some (JObj kvs)"
    and "map_of kvs ''token'' = Some (JObj tkvs)"
    and "map_of tkvs ''access'' = Some (JStr a)"
  shows "login_try env st =
     (Inr True, st\<lparr>headers := (headers st)(''Authorization'' \<mapsto> ''Bearer '' @ a),
                  refresh_token := (case map_of tkvs ''refresh'' of None \<Rightarrow> JNull | Some r \<Rightarrow> r),
                  trace := trace st @ [Request (login_request st q)]\<rparr>)"
  using assms by (simp add: login_try_def io_defs login_request_def)

lemma login_try_Inr:
  assumes "login_try env st = (Inr ok, st')"
  shows "\<exists>q resp kvs tkvs a. get_tg_web_data env (trace st) None = Inr q \<and>
           service env (trace st) (login_request st q) = Inr resp \<and>
           json_body resp = Some (JObj kvs) \<and> map_of kvs ''token'' = Some (JObj tkvs) \<and>
           map_of tkvs ''access'' = Some (JStr a)"
proof -
  from assms obtain q where q: "get_tg_web_data env (trace st) None = Inr q"
    by (cases "get_tg_web_data env (trace st) None") (auto simp: login_try_def io_defs)
  from assms q obtain resp where r: "service env (trace st) (login_request st q) = Inr resp"
    by (cases "service env (trace st) (login_request st q)") (auto simp: login_try_def io_defs login_request_def)
  from assms q r obtain rj where j: "json_body resp = Some rj"
    by (cases "json_body resp") (auto simp: login_try_def io_defs login_request_def)
  from assms q r j obtain tok where t: "py_get rj ''token'' = Inr tok"
    by (cases "py_get rj ''token''") (auto simp: login_try_def io_defs login_request_def)
  from assms q r j t obtain acc where a: "py_get tok ''access'' = Inr acc"
    by (cases "py_get tok ''access''") (auto simp: login_try_def io_defs login_request_def)
  from assms q r j t a obtain h where h: "py_str_add ''Bearer '' acc = Inr h"
    by (cases "py_str_add ''Bearer '' acc") (auto simp: login_try_def io_defs login_request_def)
  from t a h py_get_token_access [of rj h] obtain kvs tkvs a where
    "rj = JObj kvs" "map_of kvs ''token'' = Some (JObj tkvs)" "map_of tkvs ''access'' = Some (JStr a)"
    by blast
  with q r j show ?thesis by blast
qed

lemma login_try_Inl:
  assumes "login_try env st = (Inl e, st')"
  shows "headers st' = headers st \<and> refresh_token st' = refresh_token st"
proof -
  show ?thesis
  proof (cases "get_tg_web_data env (trace st) None")
    case (Inl e1)
    with assms show ?thesis by (auto simp: login_try_def io_defs)
  next
    case q: (Inr q)
    show ?thesis
    proof (cases "service env (trace st) (login_request st q)")
      case (Inl e2)
      with assms q show ?thesis by (auto simp: login_try_def io_defs login_request_def)
    next
      case r: (Inr resp)
      show ?thesis
      proof (cases "json_body resp")
        case None
        with assms q r show ?thesis by (auto simp: login_try_def io_defs login_request_def)
      next
        case j: (Some rj)
        show ?thesis
        proof (cases "py_get rj ''token''")
          case (Inl e3)
          with assms q r j show ?thesis by (auto simp: login_try_def io_defs login_request_def)
        next
          case t: (Inr tok)
          show ?thesis
          proof (cases "py_get tok ''access''")
            case (Inl e4)
            with assms q r j t show ?thesis by (auto simp: login_try_def io_defs login_request_def)
          next
            case a: (Inr acc)
            show ?thesis
            proof (cases "py_str_add ''Bearer '' acc")
              case (Inl e5)
              with assms q r j t a show ?thesis by (auto simp: login_try_def io_defs login_request_def)
            next
              case (Inr h)
              from t a obtain r where "py_get tok ''refresh'' = Inr r"
                by (cases tok) auto
              with assms q r j t a Inr show ?thesis
                by (auto simp: login_try_def io_defs login_request_def)
            qed
          qed
        qed
      qed
    qed
  qed
qed

lemma login_True_iff:
  "fst (login env st) \<longleftrightarrow>
     (\<exists>q resp kvs tkvs a. get_tg_web_data env (trace st) None = Inr q \<and>
        service env (trace st) (login_request st q) = Inr resp \<and>
        json_body resp = Some (JObj kvs) \<and> map_of kvs ''token'' = Some (JObj tkvs) \<and>
        map_of tkvs ''access'' = Some (JStr a))"
proof
  assume ok: "fst (login env st)"
  obtain r s where lt: "login_try env st = (r, s)" by (cases "login_try env st")
  with ok obtain b where "r = Inr b" by (cases r) (auto simp: login_def)
  with lt login_try_Inr show "\<exists>q resp kvs tkvs a. get_tg_web_data env (trace st) None = Inr q \<and>
        service env (trace st) (login_request st q) = Inr resp \<and>
        json_body resp = Some (JObj kvs) \<and> map_of kvs ''token'' = Some (JObj tkvs) \<and>
        map_of tkvs ''access'' = Some (JStr a)" by blast
next
  assume "\<exists>q resp kvs tkvs a. get_tg_web_data env (trace st) None = Inr q \<and>
        service env (trace st) (login_request st q) = Inr resp \<and>
        json_body resp = Some (JObj kvs) \<and> map_of kvs ''token'' = Some (JObj tkvs) \<and>
        map_of tkvs ''access'' = Some (JStr a)"
  then obtain q resp kvs tkvs a where "get_tg_web_data env (trace st) None = Inr q"
        "service env (trace st) (login_request st q) = Inr resp"
        "json_body resp = Some (JObj kvs)" "map_of kvs ''token'' = Some (JObj tkvs)"
        "map_of tkvs ''access'' = Some (JStr a)" by blast
  from login_try_success [OF this] show "fst (login env st)" by (simp add: login_def)
qed

lemma refresh_without_access_raises:
  assumes "service env (trace st) (refresh_request st) = Inr resp"
    and "json_body resp = Some (JObj kvs)" and "map_of kvs ''access'' = None"
  shows "refresh env st = (Inl TypeError, st\<lparr>trace := trace st @ [Request (refresh_request st)]\<rparr>)"
  using assms by (simp add: refresh_def io_defs refresh_request_def)

lemma claim_game_retries_once:
  assumes "service env (trace st) rq = Inr r1" and "status r1 \<noteq> 200"
    and "rq = mk_request st POST GameClaim (Some (JObj [(''gameId'', g), (''points'', JInt (rand_points env (trace st)))]))"
  shows "claim_game env g st =
     ((case service env (trace st @ [Request rq, Sleep (DelaySeconds 1)]) rq of
         Inl e \<Rightarrow> Inl e
       | Inr r2 \<Rightarrow>
          (case text_body r2 of
             None \<Rightarrow> Inl PayloadError
           | Some txt \<Rightarrow> Inr (if txt = ''OK'' then JBool True else JStr txt, rand_points env (trace st)))),
      st\<lparr>trace := trace st @ [Request rq, Sleep (DelaySeconds 1), Request rq]\<rparr>)"
  using assms
  by (auto simp: claim_game_def io_defs mk_request_def split: sum.splits option.splits)

lemma claim_retries_once:
  assumes "service env (trace st) rq = Inr r1" and "status r1 \<noteq> 200"
    and "rq = mk_request st POST FarmingClaim None"
  shows "snd (claim env st) = st\<lparr>trace := trace st @ [Request rq, Sleep (DelaySeconds 1), Request rq]\<rparr>"
  using assms
  by (auto simp: claim_def io_defs mk_request_def split: sum.splits option.splits)

lemma start_retries_once:
  assumes "service env (trace st) rq = Inr r1" and "status r1 \<noteq> 200"
    and "rq = mk_request st POST FarmingStart None"
  shows "start env st =
     ((case service env (trace st @ [Request rq, Sleep (DelaySeconds 1)]) rq of
         Inl e \<Rightarrow> Inl e | Inr r2 \<Rightarrow> Inr ()),
      st\<lparr>trace := trace st @ [Request rq, Sleep (DelaySeconds 1), Request rq]\<rparr>)"
  using assms
  by (auto simp: start_def io_defs mk_request_def split: sum.splits option.splits)

lemma friend_balance_retries_once:
  assumes "service env (trace st) rq = Inr r1" and "status r1 \<noteq> 200"
    and "json_body r1 = Some (JObj kvs)"
    and "rq = mk_request st GET FriendsBalance None"
  shows "snd (friend_balance env st) =
           st\<lparr>trace := trace st @ [Request rq, Sleep (DelaySeconds 1), Request rq]\<rparr>"
  using assms
  by (auto simp: friend_balance_def io_defs mk_request_def split: sum.splits option.splits)

lemma claim_game_error_body_retried:
  "snd (claim_game (env_answering bad_gateway_response) (JStr ''g1'') init_bot) =
     init_bot\<lparr>trace := [Request (claim_request ''g1''), Sleep (DelaySeconds 1), Request (claim_request ''g1'')]\<rparr>"
  by (simp add: claim_game_def io_defs env_answering_def bad_gateway_response_def init_bot_def
      claim_request_def mk_request_def)

lemma round_half_even_scaled:
  assumes "0 \<le> a" and "512 \<le> P"
  shows "round_half_even (a * P) 1000 div P = a div 1000"
proof -
  define c t where "c = a div 1000" and "t = a mod 1000"
  define q r where "q = (a * P) div 1000" and "r = (a * P) mod 1000"
  define X Y where "X = c * P" and "Y = t * P"
  have a: "a = 1000 * c + t" and t: "0 \<le> t" "t \<le> 999" by (simp_all add: c_def t_def)
  have A: "a * P = 1000 * X + Y" by (simp add: a X_def Y_def algebra_simps)
  have Y: "0 \<le> Y" "Y \<le> 999 * P" using t assms by (simp_all add: Y_def mult_right_mono)
  have qr: "a * P = 1000 * q + r" "0 \<le> r" "r < 1000" by (simp_all add: q_def r_def)
  define m where "m = round_half_even (a * P) 1000"
  have m: "m = q \<or> (m = q + 1 \<and> 1000 \<le> 2 * r)"
    by (auto simp: m_def round_half_even_def Let_def q_def r_def)
  have lo: "X \<le> m" using m A Y qr by auto
  have hi: "m < X + P" using m A Y qr assms by auto
  define k where "k = m - X"
  have k: "0 \<le> k" "k < P" using lo hi by (simp_all add: k_def)
  have "m = k + c * P" by (simp add: k_def X_def)
  then have "m div P = c + k div P" using assms by (simp add: div_mult_self1)
  with k show ?thesis by (simp add: m_def c_def)
qed

lemma double_shift_small:
  assumes "0 < a" and "a < 2 ^ 53"
  shows "9 \<le> double_shift a"
proof -
  from assms have "bitlen a \<le> 53"
    using bitlen_le_iff_power [of a 53] by simp
  then show ?thesis
    by (auto simp: double_shift_def Let_def split: prod.splits)
qed

lemma int_of_quotient_1000_small:
  assumes "0 < a" and "a < 2 ^ 53"
  shows "int_of_quotient_1000 a = Inr (a div 1000)"
proof -
  define s where "s = double_shift a"
  from double_shift_small [OF assms] have s: "9 \<le> s" by (simp add: s_def)
  then have "(2::int) ^ 9 \<le> 2 ^ nat s"
    by (intro power_increasing) simp_all
  then have P: "512 \<le> (2::int) ^ nat s" by simp
  from assms have "0 \<le> a" by simp
  from round_half_even_scaled [OF this P] s show ?thesis
    by (simp add: int_of_quotient_1000_def Let_def scaled_def s_def [symmetric])
qed

lemma py_int_true_div_1000_small [simp]:
  assumes "\<bar>x\<bar> < 2 ^ 53"
  shows "py_int_true_div_1000 x = Inr (x sdiv 1000)"
proof (cases "x = 0")
  case True
  then show ?thesis by (simp add: py_int_true_div_1000_def)
next
  case False
  then have "0 < \<bar>x\<bar>" by simp
  from int_of_quotient_1000_small [OF this assms] False show ?thesis
    by (simp add: py_int_true_div_1000_def signed_divide_int_def)
qed

lemma py_int_div_1000_overflow: "py_int_div_1000 (JInt (2 * 10 ^ 311)) = Inl OverflowError"
  by code_simp

lemma py_int_div_1000_rounds: "py_int_div_1000 (JInt 100000000000000993) = Inr (JInt 100000000000001)"
  by code_simp

lemma sdiv_nonneg: "0 \<le> (x::int) \<Longrightarrow> x sdiv 1000 = x div 1000"
  by (simp add: signed_divide_int_def sgn_if)

lemma secs_or_none_simps [simp]:
  "secs_or_none JNull = Inr JNull"
  "\<bar>ts\<bar> < 2 ^ 53 \<Longrightarrow> secs_or_none (JInt ts) = Inr (JInt (ts sdiv 1000))"
  by (simp_all add: secs_or_none_def)

lemma balance_no_farming:
  assumes "service env (trace st) (mk_request st GET UserBalance None) = Inr resp"
    and "json_body resp = Some (JObj kvs)"
    and "case map_of kvs ''farming'' of None \<Rightarrow> True | Some f \<Rightarrow> \<not> py_truthy f"
  shows "balance env st =
    (case secs_or_none (case map_of kvs ''timestamp'' of None \<Rightarrow> JNull | Some v \<Rightarrow> v) of
       Inl e \<Rightarrow> Inl e
     | Inr now \<Rightarrow> Inr (now, JNull, JNull, (case map_of kvs ''playPasses'' of None \<Rightarrow> JNull | Some v \<Rightarrow> v)),
     st\<lparr>trace := trace st @ [Request (mk_request st GET UserBalance None), Sleep (DelaySeconds 1)]\<rparr>)"
  using assms
  by (auto simp: balance_def io_defs mk_request_def split: sum.splits option.splits)

lemma balance_farming:
  assumes "service env (trace st) (mk_request st GET UserBalance None) = Inr resp"
    and "json_body resp = Some (JObj kvs)"
    and "map_of kvs ''farming'' = Some (JObj fkvs)" "fkvs \<noteq> []"
  shows "balance env st =
    (case secs_or_none (case map_of kvs ''timestamp'' of None \<Rightarrow> JNull | Some v \<Rightarrow> v) of
       Inl e \<Rightarrow> Inl e
     | Inr now \<Rightarrow>
        (case secs_or_none (case map_of fkvs ''startTime'' of None \<Rightarrow> JNull | Some v \<Rightarrow> v) of
           Inl e \<Rightarrow> Inl e
         | Inr ws \<Rightarrow>
            (case secs_or_none (case map_of fkvs ''endTime'' of None \<Rightarrow> JNull | Some v \<Rightarrow> v) of
               Inl e \<Rightarrow> Inl e
             | Inr we \<Rightarrow> Inr (now, ws, we, (case map_of kvs ''playPasses'' of None \<Rightarrow> JNull | Some v \<Rightarrow> v)))),
     st\<lparr>trace := trace st @ [Request (mk_request st GET UserBalance None), Sleep (DelaySeconds 1)]\<rparr>)"
  using assms
  by (auto simp: balance_def io_defs mk_request_def split: sum.splits option.splits)

lemma absent_or_ms_secs:
  assumes "absent_or_ms v"
  shows "\<exists>r. secs_or_none (case v of None \<Rightarrow> JNull | Some x \<Rightarrow> x) = Inr r \<and>
           (r = JNull \<longleftrightarrow> v = None \<or> v = Some JNull) \<and>
           (\<forall>ts. v = Some (JInt ts) \<and> 0 \<le> ts \<and> ts < 2 ^ 53 \<longrightarrow> r = JInt (ts div 1000))"
  using assms by (auto simp: absent_or_ms_def sdiv_nonneg)

section \<open>The game loop on a cooperative service\<close>

text \<open>
  Claim C1. Started with three play passes against a service that answers every start
  with an accepted game identifier and every claim with the text \<^verbatim>\<open>OK\<close>, \<open>play_game\<close>
  returns with the counter at 0 after exactly three start requests and three finished
  claims (each claim is one request, or two when the first status was not 200).
  Against a service that answers the first start with a game identifier and the second
  with the message \<^verbatim>\<open>cannot start game\<close>, it returns after one finished cycle: two
  start requests, one finished claim, the counter at 2, and the early stop is the last
  line logged.
\<close>

theorem play_game_three_passes:
  "(always_playable env \<longrightarrow>
      (\<exists>evs. play_game env 3 st = Some (0, st\<lparr>trace := trace st @ evs\<rparr>) \<and>
         requests_to GamePlay evs = 3 \<and> finished_games evs = 3 \<and>
         3 \<le> requests_to GameClaim evs \<and> requests_to GameClaim evs \<le> 6)) \<and>
   (refuses_second_start env \<and> requests_to GamePlay (trace st) = 0 \<longrightarrow>
      (\<exists>evs. play_game env 3 st = Some (2, st\<lparr>trace := trace st @ evs\<rparr>) \<and>
         requests_to GamePlay evs = 2 \<and> finished_games evs = 1 \<and>
         1 \<le> requests_to GameClaim evs \<and> requests_to GameClaim evs \<le> 2 \<and>
         last evs = Log (CouldntStart 2)))"
proof (intro conjI impI)
  assume "always_playable env"
  from play_game_exhausts [OF this, of 3 st]
  show "\<exists>evs. play_game env 3 st = Some (0, st\<lparr>trace := trace st @ evs\<rparr>) \<and>
         requests_to GamePlay evs = 3 \<and> finished_games evs = 3 \<and>
         3 \<le> requests_to GameClaim evs \<and> requests_to GameClaim evs \<le> 6"
    by simp
next
  assume "refuses_second_start env \<and> requests_to GamePlay (trace st) = 0"
  then have a: "refuses_second_start env" "requests_to GamePlay (trace st) = 0" by simp_all
  from play_game_second_start_refused [OF a, of 3]
  show "\<exists>evs. play_game env 3 st = Some (2, st\<lparr>trace := trace st @ evs\<rparr>) \<and>
         requests_to GamePlay evs = 2 \<and> finished_games evs = 1 \<and>
         1 \<le> requests_to GameClaim evs \<and> requests_to GameClaim evs \<le> 2 \<and>
         last evs = Log (CouldntStart 2)"
    by simp
qed

theorem play_game_three_passes_witness:
  "always_playable env_playable \<and>
   (\<exists>evs. play_game env_playable 3 init_bot = Some (0, init_bot\<lparr>trace := trace init_bot @ evs\<rparr>) \<and>
      requests_to GamePlay evs = 3 \<and> finished_games evs = 3 \<and>
      3 \<le> requests_to GameClaim evs \<and> requests_to GameClaim evs \<le> 6) \<and>
   refuses_second_start env_refusing \<and> requests_to GamePlay (trace init_bot) = 0 \<and>
   (\<exists>evs. play_game env_refusing 3 init_bot = Some (2, init_bot\<lparr>trace := trace init_bot @ evs\<rparr>) \<and>
      requests_to GamePlay evs = 2 \<and> finished_games evs = 1 \<and>
      1 \<le> requests_to GameClaim evs \<and> requests_to GameClaim evs \<le> 2 \<and>
      last evs = Log (CouldntStart 2))"
proof -
  have a: "always_playable env_playable"
    by (simp add: always_playable_def env_playable_def answers_game_id_def answers_ok_def
        game_id_response_def ok_response_def accepted_game_id_def)
  have b: "refuses_second_start env_refusing"
    by (simp add: refuses_second_start_def env_refusing_def answers_game_id_def answers_ok_def
        answers_cannot_start_def game_id_response_def ok_response_def cannot_start_response_def
        accepted_game_id_def)
  have c: "requests_to GamePlay (trace init_bot) = 0"
    by (simp add: requests_to_def init_bot_def)
  show ?thesis
    using a b c play_game_three_passes [of env_playable init_bot]
      play_game_three_passes [of env_refusing init_bot]
    by blast
qed

section \<open>Leaving the loop when the game cannot be started\<close>

text \<open>
  Claim C5, as stated, fails: a start response that carries a message instead of a game
  identifier does not always end the loop. \<open>start_game\<close> returns the message text, and
  \<open>play_game\<close> leaves the loop only when that value is falsy or is the text
  \<^verbatim>\<open>cannot start game\<close>. With the message \<^verbatim>\<open>try again later\<close> the text is used as the
  game identifier of a claim request, and the pass is counted.
\<close>

theorem play_game_message_taken_as_game_id:
  "service env_try_later [Sleep DelayPlay] start_request = Inr try_later_response \<and>
   json_body try_later_response = Some (JObj [(''message'', JStr ''try again later'')]) \<and>
   play_game env_try_later 1 init_bot =
     Some (0, init_bot\<lparr>trace :=
        [Sleep DelayPlay, Request start_request, Sleep DelayGame,
         Request (claim_request ''try again later''), Log (FinishPlay 150), Sleep DelayGame]\<rparr>)"
proof -
  have "play_pass env_try_later 1 init_bot =
     (Inr (Continue 0), init_bot\<lparr>trace := finished_pass ''try again later''\<rparr>)"
    using play_pass_env_try_later [of 1] by simp
  from play_game_continue [OF _ this] show ?thesis
    by (simp add: play_game_zero finished_pass_def env_try_later_def try_later_response_def
        start_request_def)
qed

text \<open>
  Claim C5, amended. When the start response carries no game identifier and its message
  is the text \<^verbatim>\<open>cannot start game\<close> (or the empty text), the loop ends at once: the
  counter keeps its value, the pass logs that it could not start, and no claim request
  is sent.
\<close>

theorem play_game_cannot_start:
  assumes "n \<noteq> 0"
    and "service env (trace st @ [Sleep DelayPlay]) (mk_request st POST GamePlay None) = Inr resp"
    and "json_body resp = Some (JObj kvs)"
    and "map_of kvs ''gameId'' = None"
    and "map_of kvs ''message'' = Some (JStr m)"
    and "m = ''cannot start game'' \<or> m = []"
  shows "play_game env n st =
           Some (n, st\<lparr>trace := trace st @
                   [Sleep DelayPlay, Request (mk_request st POST GamePlay None),
                    Log (CouldntStart n)]\<rparr>)"
proof -
  from assms(2-6) have "play_pass env n st =
      (Inr Break, st\<lparr>trace := trace st @
                   [Sleep DelayPlay, Request (mk_request st POST GamePlay None),
                    Log (CouldntStart n)]\<rparr>)"
    by (auto simp: play_pass_def start_game_def io_defs mk_request_def)
  from play_game_break [OF assms(1) this] show ?thesis .
qed

theorem play_game_cannot_start_witness:
  "(3::int) \<noteq> 0 \<and>
   service env_refusing (trace (init_bot\<lparr>trace := finished_pass ''g1''\<rparr>) @ [Sleep DelayPlay])
     (mk_request (init_bot\<lparr>trace := finished_pass ''g1''\<rparr>) POST GamePlay None) = Inr cannot_start_response \<and>
   json_body cannot_start_response = Some (JObj [(''message'', JStr ''cannot start game'')]) \<and>
   map_of [(''message'', JStr ''cannot start game'')] ''gameId'' = None \<and>
   map_of [(''message'', JStr ''cannot start game'')] ''message'' = Some (JStr ''cannot start game'') \<and>
   play_game env_refusing 3 (init_bot\<lparr>trace := finished_pass ''g1''\<rparr>) =
     Some (3, init_bot\<lparr>trace := finished_pass ''g1'' @
                [Sleep DelayPlay, Request start_request, Log (CouldntStart 3)]\<rparr>)"
proof -
  let ?st = "init_bot\<lparr>trace := finished_pass ''g1''\<rparr>"
  have a: "service env_refusing (trace ?st @ [Sleep DelayPlay]) (mk_request ?st POST GamePlay None)
             = Inr cannot_start_response"
    by (simp add: env_defs requests_to_def mk_request_def)
  have b: "json_body cannot_start_response = Some (JObj [(''message'', JStr ''cannot start game'')])"
    by (simp add: cannot_start_response_def)
  have c: "map_of [(''message'', JStr ''cannot start game'')] ''gameId'' = None"
    "map_of [(''message'', JStr ''cannot start game'')] ''message'' = Some (JStr ''cannot start game'')"
    by simp_all
  have d: "(3::int) \<noteq> 0" by simp
  from play_game_cannot_start [OF d a b c] a b c show ?thesis
    by (simp add: mk_request_def start_request_def init_bot_def)
qed

section \<open>The pass counter\<close>

text \<open>
  Claim C8, as stated, fails: the counter also goes down after a cycle whose start
  response carried no game identifier. The start below answers with the message
  \<^verbatim>\<open>try again later\<close> and no \<^verbatim>\<open>gameId\<close>; the claim made with that text is answered \<^verbatim>\<open>OK\<close>,
  and the pass hands the counter 0 to the loop that was entered with 1.
\<close>

theorem play_pass_counts_message_start:
  "service env_try_later [Sleep DelayPlay] start_request = Inr try_later_response \<and>
   json_body try_later_response = Some (JObj [(''message'', JStr ''try again later'')]) \<and>
   map_of [(''message'', JStr ''try again later'')] ''gameId'' = None \<and>
   play_pass env_try_later 1 init_bot =
     (Inr (Continue 0), init_bot\<lparr>trace := finished_pass ''try again later''\<rparr>)"
  using play_pass_env_try_later [of 1]
  by (simp add: env_try_later_def try_later_response_def start_request_def)

text \<open>
  Claim C8, amended. In every run of \<open>play_game\<close> that returns, the counter has dropped
  by exactly the number of finished start/claim cycles. In every pass of the loop: the
  counter goes down by one only when \<open>start_game\<close> returned a value the loop accepts as
  game identifier (a truthy value other than the text \<^verbatim>\<open>cannot start game\<close>, which is
  the \<^verbatim>\<open>gameId\<close> of the start response, or its \<^verbatim>\<open>message\<close> when the response has no
  \<^verbatim>\<open>gameId\<close>) and \<open>claim_game\<close> returned \<open>True\<close>, which it does only when the text of
  the response it kept was \<^verbatim>\<open>OK\<close>; an exception raised anywhere in the pass is caught,
  and the loop goes on with the same counter after the error handler; a \<^verbatim>\<open>break\<close> leaves
  the counter as it was.
\<close>

theorem play_game_counter:
  "(play_game env n st = Some (m, st') \<longrightarrow>
      (\<exists>evs. st' = st\<lparr>trace := trace st @ evs\<rparr> \<and> n - m = int (finished_games evs))) \<and>
   (n \<noteq> 0 \<and> play_pass env n st = (r, s) \<longrightarrow>
      (case r of
         Inl e \<Rightarrow> play_game env n st = play_game env n (on_error e s)
       | Inr Break \<Rightarrow> play_game env n st = Some (n, s)
       | Inr (Continue k) \<Rightarrow>
           k = n - 1 \<and> play_game env n st = play_game env k s \<and>
           (\<exists>g s1 p s2 hist rq resp resp0 kvs.
              start_game env (st\<lparr>trace := trace st @ [Sleep DelayPlay]\<rparr>) = (Inr g, s1) \<and>
              accepted_game_id g \<and>
              service env (trace st @ [Sleep DelayPlay]) (mk_request st POST GamePlay None) = Inr resp0 \<and>
              json_body resp0 = Some (JObj kvs) \<and>
              (map_of kvs ''gameId'' = Some g \<or>
               map_of kvs ''gameId'' = None \<and> map_of kvs ''message'' = Some g) \<and>
              claim_game env g (s1\<lparr>trace := trace s1 @ [Sleep DelayGame]\<rparr>) = (Inr (JBool True, p), s2) \<and>
              trace s2 = hist @ [Request rq] \<and> endpoint rq = GameClaim \<and>
              service env hist rq = Inr resp \<and> text_body resp = Some ''OK'' \<and>
              s = s2\<lparr>trace := trace s2 @ [Log (FinishPlay p), Sleep DelayGame]\<rparr>)))"
proof (intro conjI impI)
  assume "play_game env n st = Some (m, st')"
  then show "\<exists>evs. st' = st\<lparr>trace := trace st @ evs\<rparr> \<and> n - m = int (finished_games evs)"
    by (rule play_game_counts)
next
  assume a: "n \<noteq> 0 \<and> play_pass env n st = (r, s)"
  then have n: "n \<noteq> 0" and pp: "play_pass env n st = (r, s)" by simp_all
  from pp show "case r of
         Inl e \<Rightarrow> play_game env n st = play_game env n (on_error e s)
       | Inr Break \<Rightarrow> play_game env n st = Some (n, s)
       | Inr (Continue k) \<Rightarrow>
           k = n - 1 \<and> play_game env n st = play_game env k s \<and>
           (\<exists>g s1 p s2 hist rq resp resp0 kvs.
              start_game env (st\<lparr>trace := trace st @ [Sleep DelayPlay]\<rparr>) = (Inr g, s1) \<and>
              accepted_game_id g \<and>
              service env (trace st @ [Sleep DelayPlay]) (mk_request st POST GamePlay None) = Inr resp0 \<and>
              json_body resp0 = Some (JObj kvs) \<and>
              (map_of kvs ''gameId'' = Some g \<or>
               map_of kvs ''gameId'' = None \<and> map_of kvs ''message'' = Some g) \<and>
              claim_game env g (s1\<lparr>trace := trace s1 @ [Sleep DelayGame]\<rparr>) = (Inr (JBool True, p), s2) \<and>
              trace s2 = hist @ [Request rq] \<and> endpoint rq = GameClaim \<and>
              service env hist rq = Inr resp \<and> text_body resp = Some ''OK'' \<and>
              s = s2\<lparr>trace := trace s2 @ [Log (FinishPlay p), Sleep DelayGame]\<rparr>)"
  proof (cases rule: play_pass_cases)
    case (start_raised e)
    with play_game_error [OF n, of env st e s] pp show ?thesis by simp
  next
    case (not_started g s1)
    with play_game_break [OF n, of env st s] pp show ?thesis by simp
  next
    case (claim_raised g s1 e)
    with play_game_error [OF n, of env st e s] pp show ?thesis by simp
  next
    case (not_claimed g s1 msg p s2)
    with play_game_break [OF n, of env st s] pp show ?thesis by simp
  next
    case (finished g s1 p s2)
    from claim_game_True [OF finished(3)] obtain hist rq resp where
      c: "trace s2 = hist @ [Request rq]" "endpoint rq = GameClaim"
      "service env hist rq = Inr resp" "text_body resp = Some ''OK''" by blast
    from finished(2) have "py_truthy g" by (simp add: accepted_game_id_def)
    from start_game_origin [OF finished(1) this] obtain resp0 kvs where
      o: "service env (trace st @ [Sleep DelayPlay]) (mk_request st POST GamePlay None) = Inr resp0"
      "json_body resp0 = Some (JObj kvs)"
      "map_of kvs ''gameId'' = Some g \<or> map_of kvs ''gameId'' = None \<and> map_of kvs ''message'' = Some g"
      by (auto simp: mk_request_def)
    have "\<exists>g s1 p s2 hist rq resp resp0 kvs.
              start_game env (st\<lparr>trace := trace st @ [Sleep DelayPlay]\<rparr>) = (Inr g, s1) \<and>
              accepted_game_id g \<and>
              service env (trace st @ [Sleep DelayPlay]) (mk_request st POST GamePlay None) = Inr resp0 \<and>
              json_body resp0 = Some (JObj kvs) \<and>
              (map_of kvs ''gameId'' = Some g \<or>
               map_of kvs ''gameId'' = None \<and> map_of kvs ''message'' = Some g) \<and>
              claim_game env g (s1\<lparr>trace := trace s1 @ [Sleep DelayGame]\<rparr>) = (Inr (JBool True, p), s2) \<and>
              trace s2 = hist @ [Request rq] \<and> endpoint rq = GameClaim \<and>
              service env hist rq = Inr resp \<and> text_body resp = Some ''OK'' \<and>
              s = s2\<lparr>trace := trace s2 @ [Log (FinishPlay p), Sleep DelayGame]\<rparr>"
      using finished(1,2,3,5) c o by blast
    with finished(4) play_game_continue [OF n, of env st "n - 1" s] pp show ?thesis
      by simp
  qed
qed

theorem play_game_counter_witness:
  "play_game env_playable 1 init_bot = Some (0, init_bot\<lparr>trace := finished_pass ''g1''\<rparr>) \<and>
   (\<exists>evs. init_bot\<lparr>trace := finished_pass ''g1''\<rparr> = init_bot\<lparr>trace := trace init_bot @ evs\<rparr> \<and>
      (1::int) - 0 = int (finished_games evs)) \<and>
   play_pass env_offline 1 init_bot =
     (Inl TransportError, init_bot\<lparr>trace := [Sleep DelayPlay, Request start_request]\<rparr>) \<and>
   play_game env_offline 1 init_bot =
     play_game env_offline 1
       (on_error TransportError (init_bot\<lparr>trace := [Sleep DelayPlay, Request start_request]\<rparr>)) \<and>
   play_pass env_playable 1 init_bot = (Inr (Continue 0), init_bot\<lparr>trace := finished_pass ''g1''\<rparr>) \<and>
   play_game env_playable 1 init_bot = play_game env_playable 0 (init_bot\<lparr>trace := finished_pass ''g1''\<rparr>) \<and>
   play_pass (env_answering cannot_start_response) 1 init_bot =
     (Inr Break, init_bot\<lparr>trace := [Sleep DelayPlay, Request start_request, Log (CouldntStart 1)]\<rparr>) \<and>
   play_game (env_answering cannot_start_response) 1 init_bot =
     Some (1, init_bot\<lparr>trace := [Sleep DelayPlay, Request start_request, Log (CouldntStart 1)]\<rparr>)"
proof -
  have brk: "play_pass (env_answering cannot_start_response) 1 init_bot =
     (Inr Break, init_bot\<lparr>trace := [Sleep DelayPlay, Request start_request, Log (CouldntStart 1)]\<rparr>)"
    by (simp add: play_pass_def start_game_def io_defs mk_request_def env_answering_def
        cannot_start_response_def start_request_def init_bot_def)
  have pass: "play_pass env_playable 1 init_bot = (Inr (Continue 0), init_bot\<lparr>trace := finished_pass ''g1''\<rparr>)"
    using play_pass_env_playable [of 1] by simp
  have run: "play_game env_playable 1 init_bot = Some (0, init_bot\<lparr>trace := finished_pass ''g1''\<rparr>)"
    using play_game_continue [OF _ pass] by (simp add: play_game_zero)
  have off: "play_pass env_offline 1 init_bot =
     (Inl TransportError, init_bot\<lparr>trace := [Sleep DelayPlay, Request start_request]\<rparr>)"
    by (rule play_pass_env_offline)
  show ?thesis
    using pass run off brk
      play_game_counter [of "env_answering cannot_start_response" 1 init_bot 0 init_bot "Inr Break"
        "init_bot\<lparr>trace := [Sleep DelayPlay, Request start_request, Log (CouldntStart 1)]\<rparr>"]
      play_game_counter [of env_playable 1 init_bot 0 "init_bot\<lparr>trace := finished_pass ''g1''\<rparr>"
        "Inr (Continue 0)" "init_bot\<lparr>trace := finished_pass ''g1''\<rparr>"]
      play_game_counter [of env_offline 1 init_bot 0 init_bot "Inl TransportError"
        "init_bot\<lparr>trace := [Sleep DelayPlay, Request start_request]\<rparr>"]
    by simp
qed

section \<open>The loop condition\<close>

text \<open>
  Claim C10. With no play pass the loop body never runs: the state, history included, is
  unchanged. The loop is left through its condition only with the counter at 0, and a
  run that ends that way started from a counter that was not negative. Against a service
  that always lets the game be played, a counter that is not negative reaches 0, and a
  negative one is decremented for ever: the run never returns.
\<close>

theorem play_game_exit_condition:
  "play_game env 0 st = Some (0, st) \<and>
   (play_game env n st = Some (0, st') \<longrightarrow> 0 \<le> n) \<and>
   (always_playable env \<longrightarrow>
      (0 \<le> n \<longrightarrow> (\<exists>s. play_game env n st = Some (0, s))) \<and>
      (n < 0 \<longrightarrow> play_game env n st = None))"
proof (intro conjI impI)
  show "play_game env 0 st = Some (0, st)" by (rule play_game_zero)
next
  assume "play_game env n st = Some (0, st')"
  from play_game_counts [OF this] show "0 \<le> n" by auto
next
  assume "always_playable env" "0 \<le> n"
  from play_game_exhausts [OF this(1), of "nat n" st] this(2)
  show "\<exists>s. play_game env n st = Some (0, s)" by auto
next
  assume env: "always_playable env" and neg: "n < 0"
  show "play_game env n st = None"
  proof (cases "play_game env n st")
    case None
    then show ?thesis .
  next
    case (Some y)
    obtain m s where y: "y = (m, s)" by (cases y)
    from always_playable_never_breaks [OF env Some] y have "m = 0" by simp
    with Some y play_game_counts [of env n st m s] neg show ?thesis by auto
  qed
qed

theorem play_game_exit_condition_witness:
  "play_game env_playable 0 init_bot = Some (0, init_bot) \<and> (0::int) \<le> 0 \<and>
   always_playable env_playable \<and>
   (\<exists>s. play_game env_playable 2 init_bot = Some (0, s)) \<and>
   play_game env_playable (- 1) init_bot = None"
  using play_game_exit_condition [of env_playable init_bot 0 init_bot]
    play_game_exit_condition [of env_playable init_bot 2]
    play_game_exit_condition [of env_playable init_bot "- 1"]
    always_playable_env_playable
  by simp

section \<open>Login\<close>



text \<open>
  Claim C9. A failing \<open>login\<close> leaves the \<^verbatim>\<open>Authorization\<close> header and the stored refresh
  token as they were before the call, wherever the failure happened.
\<close>

theorem login_failure_keeps_credentials:
  assumes "login env st = (False, st')"
  shows "headers st' = headers st \<and> refresh_token st' = refresh_token st"
proof -
  obtain r s where lt: "login_try env st = (r, s)" by (cases "login_try env st")
  show ?thesis
  proof (cases r)
    case (Inl e)
    with lt assms have "st' = s" by (simp add: login_def)
    with lt Inl login_try_Inl show ?thesis by blast
  next
    case (Inr ok)
    with lt login_try_Inr [of env st ok s] have "fst (login env st)"
      by (simp add: login_True_iff)
    with assms show ?thesis by simp
  qed
qed

theorem login_failure_keeps_credentials_witness:
  "login env_login_no_access bot_logged_in =
     (False, bot_logged_in\<lparr>trace := [Request (login_request bot_logged_in ''query'')]\<rparr>) \<and>
   headers (bot_logged_in\<lparr>trace := [Request (login_request bot_logged_in ''query'')]\<rparr>) ''Authorization''
     = Some ''Bearer A0'' \<and>
   refresh_token (bot_logged_in\<lparr>trace := [Request (login_request bot_logged_in ''query'')]\<rparr>) = JStr ''R0''"
proof -
  have "login env_login_no_access bot_logged_in =
     (False, bot_logged_in\<lparr>trace := [Request (login_request bot_logged_in ''query'')]\<rparr>)"
    by (simp add: login_def login_try_def io_defs login_request_def env_login_no_access_def
        no_access_response_def bot_logged_in_def)
  from this login_failure_keeps_credentials [OF this] show ?thesis
    by (simp add: bot_logged_in_def)
qed

section \<open>Retrying once on a status other than 200\<close>

text \<open>
  Claim C2. \<open>claim_game\<close>, \<open>claim\<close> and \<open>start\<close> test the status before they read the body:
  after a first status other than 200 they sleep one second, send the request once
  more and keep the second response, whatever it is (lemmas \<open>claim_game_retries_once\<close>,
  \<open>claim_retries_once\<close>, \<open>start_retries_once\<close>). \<open>friend_balance\<close> decodes the body of the
  first response before it tests the status, so the retry happens only when that body
  is a JSON object (\<open>friend_balance_retries_once\<close>). Against a gateway that answers 502
  with an HTML page, \<open>friend_balance\<close> raises after a single request: the additional
  request of the claim is never sent, while \<open>claim_game\<close> does send it against the same
  gateway (\<open>claim_game_error_body_retried\<close>).
\<close>

theorem friend_balance_error_body_not_retried:
  "service (env_answering bad_gateway_response) [] (mk_request init_bot GET FriendsBalance None) = Inr bad_gateway_response \<and>
   status bad_gateway_response = 502 \<and>
   friend_balance (env_answering bad_gateway_response) init_bot =
     (Inl DecodeError, init_bot\<lparr>trace := [Request (mk_request init_bot GET FriendsBalance None)]\<rparr>)"
  by (simp add: friend_balance_def io_defs env_answering_def bad_gateway_response_def init_bot_def)

section \<open>The farming window reported by balance\<close>

text \<open>
  Claim C3, as stated, fails: the window components are \<^verbatim>\<open>None\<close> also when the farming
  object is present. Here the farming object has a start time and no end time, and the
  end of the window is \<^verbatim>\<open>None\<close>.
\<close>

theorem balance_farming_without_end_time:
  "json_body balance_response =
     Some (JObj [(''timestamp'', JInt 1700000000123), (''playPasses'', JInt 3),
                 (''farming'', JObj [(''startTime'', JInt 1699999000999)])]) \<and>
   balance (env_answering balance_response) init_bot =
     (Inr (JInt 1700000000, JInt 1699999000, JNull, JInt 3),
      init_bot\<lparr>trace := [Request (mk_request init_bot GET UserBalance None), Sleep (DelaySeconds 1)]\<rparr>)"
  by (simp add: balance_def io_defs env_answering_def balance_response_def init_bot_def mk_request_def
      signed_divide_int_def)

text \<open>
  Claim C3, amended. For a response that is a JSON object whose farming entry is absent,
  null or an object, and whose timestamps are integers of absolute value below \<open>2 ^ 53\<close>,
  null or absent, \<open>balance\<close> returns, and: the start (the end) of the window is \<^verbatim>\<open>None\<close> exactly when the farming
  object is absent or has no \<^verbatim>\<open>startTime\<close> (\<^verbatim>\<open>endTime\<close>), the field being missing or null;
  the current time is \<^verbatim>\<open>None\<close> exactly when \<^verbatim>\<open>timestamp\<close> is missing or null; and a
  millisecond timestamp \<open>ts\<close> with \<open>0 \<le> ts < 2 ^ 53\<close> comes back as \<open>ts div 1000\<close>, the
  floor of \<open>ts / 1000\<close>. An absent farming object is the case \<open>fkvs = []\<close>.
\<close>

theorem balance_window_times:
  assumes sv: "service env (trace st) (mk_request st GET UserBalance None) = Inr resp"
    and js: "json_body resp = Some (JObj kvs)"
    and fm: "(map_of kvs ''farming'' = None \<or> map_of kvs ''farming'' = Some JNull) \<and> fkvs = [] \<or>
             map_of kvs ''farming'' = Some (JObj fkvs)"
    and ms: "absent_or_ms (map_of kvs ''timestamp'')" "absent_or_ms (map_of fkvs ''startTime'')"
            "absent_or_ms (map_of fkvs ''endTime'')"
  shows "\<exists>now window_start window_end play_passes st'.
           balance env st = (Inr (now, window_start, window_end, play_passes), st') \<and>
           (window_start = JNull \<longleftrightarrow>
              map_of fkvs ''startTime'' = None \<or> map_of fkvs ''startTime'' = Some JNull) \<and>
           (window_end = JNull \<longleftrightarrow>
              map_of fkvs ''endTime'' = None \<or> map_of fkvs ''endTime'' = Some JNull) \<and>
           (now = JNull \<longleftrightarrow>
              map_of kvs ''timestamp'' = None \<or> map_of kvs ''timestamp'' = Some JNull) \<and>
           (\<forall>ts. map_of fkvs ''startTime'' = Some (JInt ts) \<and> 0 \<le> ts \<and> ts < 2 ^ 53 \<longrightarrow>
                 window_start = JInt (ts div 1000)) \<and>
           (\<forall>ts. map_of fkvs ''endTime'' = Some (JInt ts) \<and> 0 \<le> ts \<and> ts < 2 ^ 53 \<longrightarrow>
                 window_end = JInt (ts div 1000)) \<and>
           (\<forall>ts. map_of kvs ''timestamp'' = Some (JInt ts) \<and> 0 \<le> ts \<and> ts < 2 ^ 53 \<longrightarrow>
                 now = JInt (ts div 1000))"
proof -
  from absent_or_ms_secs [OF ms(1)] obtain now where
    now: "secs_or_none (case map_of kvs ''timestamp'' of None \<Rightarrow> JNull | Some x \<Rightarrow> x) = Inr now"
      "now = JNull \<longleftrightarrow> map_of kvs ''timestamp'' = None \<or> map_of kvs ''timestamp'' = Some JNull"
      "\<forall>ts. map_of kvs ''timestamp'' = Some (JInt ts) \<and> 0 \<le> ts \<and> ts < 2 ^ 53 \<longrightarrow> now = JInt (ts div 1000)"
    by blast
  from absent_or_ms_secs [OF ms(2)] obtain ws where
    ws: "secs_or_none (case map_of fkvs ''startTime'' of None \<Rightarrow> JNull | Some x \<Rightarrow> x) = Inr ws"
      "ws = JNull \<longleftrightarrow> map_of fkvs ''startTime'' = None \<or> map_of fkvs ''startTime'' = Some JNull"
      "\<forall>ts. map_of fkvs ''startTime'' = Some (JInt ts) \<and> 0 \<le> ts \<and> ts < 2 ^ 53 \<longrightarrow> ws = JInt (ts div 1000)"
    by blast
  from absent_or_ms_secs [OF ms(3)] obtain we where
    we: "secs_or_none (case map_of fkvs ''endTime'' of None \<Rightarrow> JNull | Some x \<Rightarrow> x) = Inr we"
      "we = JNull \<longleftrightarrow> map_of fkvs ''endTime'' = None \<or> map_of fkvs ''endTime'' = Some JNull"
      "\<forall>ts. map_of fkvs ''endTime'' = Some (JInt ts) \<and> 0 \<le> ts \<and> ts < 2 ^ 53 \<longrightarrow> we = JInt (ts div 1000)"
    by blast
  let ?pp = "case map_of kvs ''playPasses'' of None \<Rightarrow> JNull | Some v \<Rightarrow> v"
  let ?st' = "st\<lparr>trace := trace st @ [Request (mk_request st GET UserBalance None), Sleep (DelaySeconds 1)]\<rparr>"
  have "balance env st = (Inr (now, ws, we, ?pp), ?st')"
  proof (cases "fkvs = []")
    case True
    with fm have "case map_of kvs ''farming'' of None \<Rightarrow> True | Some f \<Rightarrow> \<not> py_truthy f"
      by auto
    from balance_no_farming [OF sv js this] now(1) ws(1) we(1) True show ?thesis
      by simp
  next
    case False
    with fm have "map_of kvs ''farming'' = Some (JObj fkvs)" by simp
    from balance_farming [OF sv js this False] now(1) ws(1) we(1) show ?thesis
      by simp
  qed
  with now(2,3) ws(2,3) we(2,3) show ?thesis by blast
qed

theorem balance_window_times_witness:
  "service (env_answering balance_response) (trace init_bot) (mk_request init_bot GET UserBalance None) = Inr balance_response \<and>
   json_body balance_response =
     Some (JObj [(''timestamp'', JInt 1700000000123), (''playPasses'', JInt 3),
                 (''farming'', JObj [(''startTime'', JInt 1699999000999)])]) \<and>
   absent_or_ms (Some (JInt 1700000000123)) \<and> absent_or_ms (Some (JInt 1699999000999)) \<and>
   absent_or_ms None \<and>
   (\<exists>play_passes st'.
      balance (env_answering balance_response) init_bot = (Inr (JInt 1700000000, JInt 1699999000, JNull, play_passes), st'))"
proof -
  have sv: "service (env_answering balance_response) (trace init_bot) (mk_request init_bot GET UserBalance None) = Inr balance_response"
    by (simp add: env_answering_def)
  have js: "json_body balance_response =
     Some (JObj [(''timestamp'', JInt 1700000000123), (''playPasses'', JInt 3),
                 (''farming'', JObj [(''startTime'', JInt 1699999000999)])])"
    by (simp add: balance_response_def)
  have ms: "absent_or_ms (Some (JInt 1700000000123))" "absent_or_ms (Some (JInt 1699999000999))"
    "absent_or_ms None"
    by (simp_all add: absent_or_ms_def)
  from balance_window_times [OF sv js, of "[(''startTime'', JInt 1699999000999)]"] ms
  obtain now ws we pp st' where
    b: "balance (env_answering balance_response) init_bot = (Inr (now, ws, we, pp), st')"
    and "we = JNull" "ws = JInt (1699999000999 div 1000)" "now = JInt (1700000000123 div 1000)"
    by auto
  then have "balance (env_answering balance_response) init_bot = (Inr (JInt 1700000000, JInt 1699999000, JNull, pp), st')"
    by simp
  with sv js ms show ?thesis by blast
qed

section \<open>The business errors of register\<close>

text \<open>
  Claim C4, as stated, fails: a response whose text contains both markers raises the
  referral-limit error, not the already-linked one, because the test for \<^verbatim>\<open>limit\<close> comes
  first.
\<close>

theorem register_limit_shadows_already_connected:
  \<open>text_body both_markers_response = Some ''{"message": "account is already connected", "limit": 0}'' \<and>
   sublist ''already connected'' ''{"message": "account is already connected", "limit": 0}'' \<and>
   register (env_answering both_markers_response) ''ref'' ''user'' init_bot =
     (Inl RefCodeError, init_bot\<lparr>trace := [Request (register_request init_bot ''query'' ''ref'' ''user'')]\<rparr>)\<close>
  by (simp add: register_def io_defs register_request_def env_answering_def both_markers_response_def
      init_bot_def sublist_code prefix_code)

text \<open>
  Claim C4, amended. For every response to \<open>register\<close> whose body decodes as JSON,
  whatever its status: when the text contains \<^verbatim>\<open>limit\<close>, \<open>register\<close> raises
  \<open>RefCodeError\<close>; when it contains \<^verbatim>\<open>already connected\<close> and not \<^verbatim>\<open>limit\<close>, it raises
  \<open>AccountUsedError\<close>. In both cases the session is left as it was.
\<close>

theorem register_business_errors:
  assumes "get_tg_web_data env (trace st) (Some referral_code) = Inr query"
    and "service env (trace st) (register_request st query referral_code username) = Inr resp"
    and "json_body resp = Some rj"
    and "text_body resp = Some txt"
  shows "(sublist ''limit'' txt \<longrightarrow>
            register env referral_code username st =
              (Inl RefCodeError,
               st\<lparr>trace := trace st @ [Request (register_request st query referral_code username)]\<rparr>)) \<and>
         (\<not> sublist ''limit'' txt \<and> sublist ''already connected'' txt \<longrightarrow>
            register env referral_code username st =
              (Inl AccountUsedError,
               st\<lparr>trace := trace st @ [Request (register_request st query referral_code username)]\<rparr>))"
  using assms
  by (simp add: register_def io_defs register_request_def)

theorem register_business_errors_witness:
  \<open>get_tg_web_data (env_answering limit_response) (trace init_bot) (Some ''ref'') = Inr ''query'' \<and>
   service (env_answering limit_response) (trace init_bot) (register_request init_bot ''query'' ''ref'' ''user'')
     = Inr limit_response \<and>
   status limit_response = 500 \<and>
   sublist ''limit'' ''{"message": "referral limit reached"}'' \<and>
   register (env_answering limit_response) ''ref'' ''user'' init_bot =
     (Inl RefCodeError, init_bot\<lparr>trace := trace init_bot @ [Request (register_request init_bot ''query'' ''ref'' ''user'')]\<rparr>) \<and>
   service (env_answering already_connected_response) (trace init_bot)
     (register_request init_bot ''query'' ''ref'' ''user'') = Inr already_connected_response \<and>
   status already_connected_response = 200 \<and>
   \<not> sublist ''limit'' ''{"message": "account is already connected"}'' \<and>
   sublist ''already connected'' ''{"message": "account is already connected"}'' \<and>
   register (env_answering already_connected_response) ''ref'' ''user'' init_bot =
     (Inl AccountUsedError, init_bot\<lparr>trace := trace init_bot @ [Request (register_request init_bot ''query'' ''ref'' ''user'')]\<rparr>)\<close>
proof -
  have q: "get_tg_web_data (env_answering r) (trace init_bot) (Some ''ref'') = Inr ''query''" for r
    by (simp add: env_answering_def)
  have sv: "service (env_answering r) (trace init_bot) (register_request init_bot ''query'' ''ref'' ''user'') = Inr r" for r
    by (simp add: env_answering_def)
  have j1: "json_body limit_response = Some (JObj [(''message'', JStr ''referral limit reached'')])"
    and t1: \<open>text_body limit_response = Some ''{"message": "referral limit reached"}''\<close>
    and s1: "status limit_response = 500"
    by (simp_all add: limit_response_def)
  have j2: "json_body already_connected_response = Some (JObj [(''message'', JStr ''account is already connected'')])"
    and t2: \<open>text_body already_connected_response = Some ''{"message": "account is already connected"}''\<close>
    and s2: "status already_connected_response = 200"
    by (simp_all add: already_connected_response_def)
  have l1: \<open>sublist ''limit'' ''{"message": "referral limit reached"}''\<close>
    by (simp add: sublist_code prefix_code)
  have l2: \<open>\<not> sublist ''limit'' ''{"message": "account is already connected"}''\<close>
    by (simp add: sublist_code prefix_code)
  have l3: \<open>sublist ''already connected'' ''{"message": "account is already connected"}''\<close>
    by (simp add: sublist_code prefix_code)
  from register_business_errors [OF q sv j1 t1] register_business_errors [OF q sv j2 t2]
    q sv s1 s2 l1 l2 l3
  show ?thesis by simp
qed

section \<open>Responses of an unexpected shape\<close>

text \<open>
  Claim C6, as stated, fails: \<open>claim\<close> divides the timestamp of the farming claim
  without testing it, so a response without \<^verbatim>\<open>timestamp\<close> raises \<^verbatim>\<open>TypeError\<close>. In the same
  way \<open>refresh\<close> raises on a response without \<^verbatim>\<open>access\<close> (lemma
  \<open>refresh_without_access_raises\<close>).
\<close>

theorem claim_without_timestamp_raises:
  "json_body no_timestamp_response = Some (JObj [(''availableBalance'', JStr ''12.5'')]) \<and>
   claim (env_answering no_timestamp_response) init_bot =
     (Inl TypeError, init_bot\<lparr>trace := [Request (mk_request init_bot POST FarmingClaim None)]\<rparr>)"
  by (simp add: claim_def io_defs env_answering_def no_timestamp_response_def init_bot_def mk_request_def)

text \<open>
  Claim C6, amended. A task list that decodes to something other than a list makes
  \<open>get_tasks\<close> log the response and return the empty list; a farming claim answered
  with status 200, a timestamp of absolute value below \<open>2 ^ 53\<close> and no
  \<^verbatim>\<open>availableBalance\<close> returns the seconds and \<^verbatim>\<open>None\<close> for the balance; a refresh
  answered with an access token and without \<^verbatim>\<open>refresh\<close> stores \<^verbatim>\<open>None\<close> as refresh token.
  None of the three raises.
\<close>

theorem missing_optional_fields_degrade:
  "(service env (trace st) (mk_request st GET Tasks None) = Inr resp \<and> json_body resp = Some rj \<and>
      (\<forall>tasks. rj \<noteq> JArr tasks) \<longrightarrow>
    get_tasks env st =
      (Inr [], st\<lparr>trace := trace st @ [Request (mk_request st GET Tasks None),
                                         Log (TasksResponse rj), Log (TasksUnexpected rj)]\<rparr>)) \<and>
   (service env (trace st) (mk_request st POST FarmingClaim None) = Inr resp \<and> status resp = 200 \<and>
      json_body resp = Some (JObj kvs) \<and> map_of kvs ''timestamp'' = Some (JInt ts) \<and>
      \<bar>ts\<bar> < 2 ^ 53 \<and> map_of kvs ''availableBalance'' = None \<longrightarrow>
    claim env st =
      (Inr (JInt (ts sdiv 1000), JNull),
       st\<lparr>trace := trace st @ [Request (mk_request st POST FarmingClaim None)]\<rparr>)) \<and>
   (service env (trace st) (refresh_request st) = Inr resp \<and>
      json_body resp = Some (JObj kvs) \<and> map_of kvs ''access'' = Some (JStr a) \<and>
      map_of kvs ''refresh'' = None \<longrightarrow>
    refresh env st =
      (Inr (), st\<lparr>headers := (headers st)(''Authorization'' \<mapsto> ''Bearer '' @ a),
                  refresh_token := JNull,
                  trace := trace st @ [Request (refresh_request st)]\<rparr>))"
proof (intro conjI impI)
  assume "service env (trace st) (mk_request st GET Tasks None) = Inr resp \<and> json_body resp = Some rj \<and>
      (\<forall>tasks. rj \<noteq> JArr tasks)"
  then show "get_tasks env st =
      (Inr [], st\<lparr>trace := trace st @ [Request (mk_request st GET Tasks None),
                                         Log (TasksResponse rj), Log (TasksUnexpected rj)]\<rparr>)"
    by (cases rj) (simp_all add: get_tasks_def io_defs)
next
  assume "service env (trace st) (mk_request st POST FarmingClaim None) = Inr resp \<and> status resp = 200 \<and>
      json_body resp = Some (JObj kvs) \<and> map_of kvs ''timestamp'' = Some (JInt ts) \<and>
      \<bar>ts\<bar> < 2 ^ 53 \<and> map_of kvs ''availableBalance'' = None"
  then show "claim env st =
      (Inr (JInt (ts sdiv 1000), JNull),
       st\<lparr>trace := trace st @ [Request (mk_request st POST FarmingClaim None)]\<rparr>)"
    by (simp add: claim_def io_defs)
next
  assume "service env (trace st) (refresh_request st) = Inr resp \<and>
      json_body resp = Some (JObj kvs) \<and> map_of kvs ''access'' = Some (JStr a) \<and>
      map_of kvs ''refresh'' = None"
  then show "refresh env st =
      (Inr (), st\<lparr>headers := (headers st)(''Authorization'' \<mapsto> ''Bearer '' @ a),
                  refresh_token := JNull,
                  trace := trace st @ [Request (refresh_request st)]\<rparr>)"
    by (simp add: refresh_def io_defs refresh_request_def)
qed

theorem missing_optional_fields_degrade_witness:
  "service (env_answering tasks_error_response) (trace init_bot) (mk_request init_bot GET Tasks None)
     = Inr tasks_error_response \<and>
   json_body tasks_error_response = Some (JObj [(''message'', JStr ''maintenance'')]) \<and>
   get_tasks (env_answering tasks_error_response) init_bot =
     (Inr [], init_bot\<lparr>trace := trace init_bot @ [Request (mk_request init_bot GET Tasks None),
         Log (TasksResponse (JObj [(''message'', JStr ''maintenance'')])),
         Log (TasksUnexpected (JObj [(''message'', JStr ''maintenance'')]))]\<rparr>) \<and>
   service (env_answering no_balance_response) (trace init_bot) (mk_request init_bot POST FarmingClaim None)
     = Inr no_balance_response \<and>
   status no_balance_response = 200 \<and>
   json_body no_balance_response = Some (JObj [(''timestamp'', JInt 1700000000123)]) \<and>
   \<bar>1700000000123 :: int\<bar> < 2 ^ 53 \<and>
   claim (env_answering no_balance_response) init_bot =
     (Inr (JInt 1700000000, JNull),
      init_bot\<lparr>trace := trace init_bot @ [Request (mk_request init_bot POST FarmingClaim None)]\<rparr>) \<and>
   service (env_answering access_only_response) (trace bot_logged_in) (refresh_request bot_logged_in)
     = Inr access_only_response \<and>
   json_body access_only_response = Some (JObj [(''access'', JStr ''A2'')]) \<and>
   refresh (env_answering access_only_response) bot_logged_in =
     (Inr (), bot_logged_in\<lparr>headers := (headers bot_logged_in)(''Authorization'' \<mapsto> ''Bearer '' @ ''A2''),
                  refresh_token := JNull,
                  trace := trace bot_logged_in @ [Request (refresh_request bot_logged_in)]\<rparr>)"
proof -
  have sv: "service (env_answering r) h rq = Inr r" for r h rq
    by (simp add: env_answering_def)
  have j1: "json_body tasks_error_response = Some (JObj [(''message'', JStr ''maintenance'')])"
    by (simp add: tasks_error_response_def)
  have j2: "json_body no_balance_response = Some (JObj [(''timestamp'', JInt 1700000000123)])"
    "status no_balance_response = 200"
    by (simp_all add: no_balance_response_def)
  have j3: "json_body access_only_response = Some (JObj [(''access'', JStr ''A2'')])"
    by (simp add: access_only_response_def)
  from missing_optional_fields_degrade [of "env_answering tasks_error_response" init_bot
      tasks_error_response "JObj [(''message'', JStr ''maintenance'')]"]
    missing_optional_fields_degrade [of "env_answering no_balance_response" init_bot
      no_balance_response _ "[(''timestamp'', JInt 1700000000123)]" 1700000000123]
    missing_optional_fields_degrade [of "env_answering access_only_response" bot_logged_in
      access_only_response _ "[(''access'', JStr ''A2'')]" _ "''A2''"]
    sv j1 j2 j3
  show ?thesis by (simp add: signed_divide_int_def)
qed

end
